theory Spec2Isabelle
  imports Complex_Main "HOL-Library.Log_Nat" "HOL-Library.Word"
begin

section \<open>Numbers\<close>

text \<open>
  A JavaScript \<open>number\<close> is an IEEE 754 binary64 value, and every arithmetic operation
  returns the double nearest to the exact result, ties going to the even significand.
  The finite doubles are modelled by their exact rational values: \<open>rnd64\<close> rounds a
  rational to the nearest double, with 53 significant bits for normal values and the
  fixed spacing \<open>2 powi (- 1074)\<close> for subnormal ones. Overflow to an infinity, NaN and
  the sign of zero are outside the model: no price, quote or quantity of the feed comes
  near \<open>2 powi 1024\<close>, and every division of the services is by a positive number.
\<close>

text \<open>Rounding to the nearest integer, ties to the even one.\<close>

definition rne :: "rat \<Rightarrow> int" where
  "rne y =
     (let f = \<lfloor>y\<rfloor>; r = y - of_int f
      in if r < 1 / 2 then f
         else if 1 / 2 < r then f + 1
         else if even f then f else f + 1)"

text \<open>The binary exponent of a positive rational: \<open>2 powi expo x \<le> x < 2 powi (expo x + 1)\<close>.\<close>

definition expo :: "rat \<Rightarrow> int" where
  "expo x = (if 1 \<le> x then bitlen \<lfloor>x\<rfloor> - 1 else - bitlen (\<lceil>1 / x\<rceil> - 1))"

text \<open>The spacing of the doubles around a positive rational.\<close>

definition quantum :: "rat \<Rightarrow> rat" where
  "quantum x = 2 powi (max (expo x) (- 1022) - 52)"

definition rnd64 :: "rat \<Rightarrow> rat" where
  "rnd64 x =
     (if x = 0 then 0
      else sgn x * (quantum \<bar>x\<bar> * of_int (rne (\<bar>x\<bar> / quantum \<bar>x\<bar>))))"

text \<open>The least positive double, \<open>Number.MIN_VALUE\<close>: every double is a multiple of it.\<close>

definition MIN_VALUE :: rat where
  "MIN_VALUE = 2 powi (- 1074)"

text \<open>
  The type of the doubles. \<open>val\<close> is the exact value of a double, and \<open>D x\<close> is the double
  nearest to \<open>x\<close>: the value of a numeric literal of the program and of a decimal of the
  feed when \<open>JSON.parse\<close> reads it.
\<close>

typedef double = "range rnd64"
  by blast

definition val :: "double \<Rightarrow> rat" where
  "val d = Rep_double d"

definition D :: "rat \<Rightarrow> double" where
  "D x = Abs_double (rnd64 x)"

instantiation double :: linorder
begin

definition less_eq_double :: "double \<Rightarrow> double \<Rightarrow> bool" where
  "less_eq_double a b \<longleftrightarrow> val a \<le> val b"

definition less_double :: "double \<Rightarrow> double \<Rightarrow> bool" where
  "less_double a b \<longleftrightarrow> val a < val b"

instance
  by standard (auto simp add: less_eq_double_def less_double_def val_def Rep_double_inject)

end

text \<open>The operators \<open>+\<close>, \<open>-\<close>, \<open>*\<close> and \<open>/\<close> on numbers.\<close>

definition fadd :: "double \<Rightarrow> double \<Rightarrow> double" where
  "fadd a b = D (val a + val b)"

definition fsub :: "double \<Rightarrow> double \<Rightarrow> double" where
  "fsub a b = D (val a - val b)"

definition fmul :: "double \<Rightarrow> double \<Rightarrow> double" where
  "fmul a b = D (val a * val b)"

definition fdiv :: "double \<Rightarrow> double \<Rightarrow> double" where
  "fdiv a b = D (val a / val b)"

text \<open>
  \<open>Math.round x\<close> is the integer nearest to \<open>x\<close>, the larger one at a tie: \<open>\<lfloor>x + 1/2\<rfloor>\<close>,
  which is \<^const>\<open>round\<close>. It is computed without rounding error.
\<close>

definition math_round :: "double \<Rightarrow> double" where
  "math_round x = D (of_int (round (val x)))"

section \<open>Data model (types.ts)\<close>

text \<open>
  A JavaScript string is a sequence of UTF-16 code units. Item names carry code units
  beyond ASCII (the section sign U+00A7 of colour codes, the decorative glyphs U+272A and
  U+269A), so a string is a list of 16-bit words.
\<close>

type_synonym jsstring = "16 word list"

datatype Rarity = COMMON | UNCOMMON | RARE | EPIC | LEGENDARY | MYTHIC | SPECIAL | VERY_SPECIAL

record RawAuction =
  uuid :: jsstring
  item_name :: jsstring
  tier :: Rarity
  starting_bid :: double
  bin :: bool
  claimed :: bool
  item_lore :: jsstring

record AuctionFlip =
  af_id :: jsstring
  af_itemName :: jsstring
  af_rarity :: Rarity
  af_lore :: jsstring
  lowestBin :: double
  af_marketPrice :: double
  af_profit :: double

section \<open>Tax model (calculateAhTax)\<close>

definition calculateAhTax :: "double \<Rightarrow> double" where
  "calculateAhTax price =
     (if D 1000000 \<le> price then fmul price (D (2 / 100)) else fmul price (D (1 / 100)))"

section \<open>Market price estimator (findMarketPriceAuction)\<close>

text \<open>\<open>arr[i] || null\<close> on an array of objects: the element, or null out of range.\<close>

definition elem_or_null :: "'a list \<Rightarrow> nat \<Rightarrow> 'a option" where
  "elem_or_null arr i = (if i < length arr then Some (arr ! i) else None)"

text \<open>\<open>sortedAuctions.slice(1)\<close>.\<close>

definition marketCandidates :: "RawAuction list \<Rightarrow> RawAuction list" where
  "marketCandidates sortedAuctions = drop 1 sortedAuctions"

text \<open>
  The locals \<open>q1Index\<close>, \<open>q3Index\<close>, \<open>q1\<close>, \<open>q3\<close>, \<open>iqr\<close> and \<open>upperBound\<close>, as functions of
  the array \<open>prices\<close>. \<open>upperBound\<close> is only read where both indices are in range.
\<close>

definition q1Index :: "double list \<Rightarrow> nat" where
  "q1Index prices = length prices div 4"

definition q3Index :: "double list \<Rightarrow> nat" where
  "q3Index prices = length prices * 3 div 4"

definition upperBound :: "double list \<Rightarrow> double" where
  "upperBound prices =
     (let q1 = prices ! q1Index prices;
          q3 = prices ! q3Index prices;
          iqr = fsub q3 q1
      in fadd q3 (fmul (D 2) iqr))"

text \<open>\<open>marketCandidates.filter(a => a.starting_bid <= upperBound)\<close>.\<close>

definition filteredCandidates :: "RawAuction list \<Rightarrow> RawAuction list" where
  "filteredCandidates sortedAuctions =
     (let prices = map starting_bid (marketCandidates sortedAuctions)
      in filter (\<lambda>a. starting_bid a \<le> upperBound prices) (marketCandidates sortedAuctions))"

definition GAP_THRESHOLD :: double where
  "GAP_THRESHOLD = D (8 / 100)"

text \<open>
  The wall-detection loop, started at index \<open>i\<close>: the value of \<open>wallStartIndex\<close> when the
  loop ends, \<open>None\<close> for the initial \<open>-1\<close>.
\<close>

function wallStartIndex :: "RawAuction list \<Rightarrow> nat \<Rightarrow> nat option" where
  "wallStartIndex fc i =
     (if i + 1 < length fc then
        (let priceA = starting_bid (fc ! i);
             priceB = starting_bid (fc ! (i + 1))
         in if D 0 < priceA \<and> GAP_THRESHOLD < fdiv (fsub priceB priceA) priceA
            then Some (i + 1)
            else wallStartIndex fc (i + 1))
      else None)"
  by pat_completeness auto
termination
  by (relation "measure (\<lambda>(fc, i). length fc - i)") auto

declare wallStartIndex.simps [simp del]

text \<open>The return statement through which a call of the estimator leaves.\<close>

datatype exit_point =
    TooFewAuctions     \<comment> \<open>line 101: fewer than 3 auctions\<close>
  | NotEnoughForIQR    \<comment> \<open>line 113: a quartile index out of range\<close>
  | FilterTooAggressive \<comment> \<open>line 127: fewer than 2 candidates after trimming\<close>
  | WallFound          \<comment> \<open>line 152\<close>
  | NoJump             \<comment> \<open>line 156\<close>

definition findMarketPriceAuction_exit :: "RawAuction list \<Rightarrow> exit_point \<times> RawAuction option" where
  "findMarketPriceAuction_exit sortedAuctions =
     (if length sortedAuctions < 3 then (TooFewAuctions, elem_or_null sortedAuctions 1)
      else
        let prices = map starting_bid (marketCandidates sortedAuctions) in
        if q1Index prices \<ge> length prices \<or> q3Index prices \<ge> length prices
        then (NotEnoughForIQR, elem_or_null (marketCandidates sortedAuctions) 0)
        else if length (filteredCandidates sortedAuctions) < 2
        then (FilterTooAggressive, elem_or_null (marketCandidates sortedAuctions) 0)
        else
          (case wallStartIndex (filteredCandidates sortedAuctions) 0 of
             Some w \<Rightarrow> (WallFound, Some (filteredCandidates sortedAuctions ! w))
           | None \<Rightarrow> (NoJump, Some (filteredCandidates sortedAuctions ! 0))))"

definition findMarketPriceAuction :: "RawAuction list \<Rightarrow> RawAuction option" where
  "findMarketPriceAuction sortedAuctions = snd (findMarketPriceAuction_exit sortedAuctions)"



text \<open>An auction with a given price, for concrete groups.\<close>

definition auctionAt :: "rat \<Rightarrow> RawAuction" where
  "auctionAt p = \<lparr>uuid = [], item_name = [], tier = COMMON, starting_bid = D p,
                  bin = True, claimed = False, item_lore = []\<rparr>"

section \<open>Identity normalizer (normalizeAuctionName)\<close>

text \<open>
  The character class \<open>[a-f0-9k-or]\<close> of the colour-code pattern: the code units of
  \<open>a\<close>..\<open>f\<close>, \<open>0\<close>..\<open>9\<close>, \<open>k\<close>..\<open>o\<close> and \<open>r\<close>.
\<close>

definition isColourCode :: "16 word \<Rightarrow> bool" where
  "isColourCode c \<longleftrightarrow>
     (0x61 \<le> c \<and> c \<le> 0x66) \<or> (0x30 \<le> c \<and> c \<le> 0x39) \<or> (0x6B \<le> c \<and> c \<le> 0x6F) \<or> c = 0x72"

text \<open>
  \<open>name.replace(/\<section>[a-f0-9k-or]/g, '')\<close>, the section sign being U+00A7: a global replace
  scans from the left, deletes a match and goes on after it, and otherwise steps over one
  code unit.
\<close>

fun removeColourCodes :: "jsstring \<Rightarrow> jsstring" where
  "removeColourCodes (c # d # rest) =
     (if c = 0xA7 \<and> isColourCode d then removeColourCodes rest
      else c # removeColourCodes (d # rest))"
| "removeColourCodes [c] = [c]"
| "removeColourCodes [] = []"

text \<open>
  The class \<open>\s\<close> of a regular expression, which is also what \<open>trim\<close> removes: the
  white space and line terminator code units of ECMAScript.
\<close>

definition isWhiteSpace :: "16 word \<Rightarrow> bool" where
  "isWhiteSpace c \<longleftrightarrow>
     (0x09 \<le> c \<and> c \<le> 0x0D) \<or> c = 0x20 \<or> c = 0xA0 \<or> c = 0x1680
     \<or> (0x2000 \<le> c \<and> c \<le> 0x200A) \<or> c = 0x2028 \<or> c = 0x2029 \<or> c = 0x202F
     \<or> c = 0x205F \<or> c = 0x3000 \<or> c = 0xFEFF"

text \<open>The class \<open>[\<dots>\s]\<close> of the second pattern: the glyphs U+272A and U+269A, and white space.\<close>

definition isDecoration :: "16 word \<Rightarrow> bool" where
  "isDecoration c \<longleftrightarrow> c = 0x272A \<or> c = 0x269A \<or> isWhiteSpace c"

text \<open>
  The second replace deletes every match of \<open>^[\<dots>]+|[\<dots>]+$\<close>. The first alternative matches
  only at index 0 and takes the longest run of decoration there; after it, or when the name
  does not start with decoration, only the second alternative can match, at the leftmost
  index from which the rest of the name is decoration: the trailing run.
\<close>

definition stripDecorations :: "jsstring \<Rightarrow> jsstring" where
  "stripDecorations s = rev (dropWhile isDecoration (rev (dropWhile isDecoration s)))"

definition trim :: "jsstring \<Rightarrow> jsstring" where
  "trim s = rev (dropWhile isWhiteSpace (rev (dropWhile isWhiteSpace s)))"

definition normalizeAuctionName :: "jsstring \<Rightarrow> jsstring" where
  "normalizeAuctionName name = trim (stripDecorations (removeColourCodes name))"

text \<open>
  Markup, in the sense of the specification: a string made of colour codes (the section
  sign followed by a code character) and decoration characters only.
\<close>

fun isMarkup :: "jsstring \<Rightarrow> bool" where
  "isMarkup (c # d # rest) =
     (if c = 0xA7 \<and> isColourCode d then isMarkup rest
      else isDecoration c \<and> isMarkup (d # rest))"
| "isMarkup [c] = isDecoration c"
| "isMarkup [] = True"

text \<open>The code units of the name \<open>Hyperion\<close>.\<close>

definition Hyperion :: jsstring where
  "Hyperion = [0x48, 0x79, 0x70, 0x65, 0x72, 0x69, 0x6F, 0x6E]"

section \<open>Auction flip detector (fetchAuctionFlips)\<close>

definition PROFIT_THRESHOLD :: double where
  "PROFIT_THRESHOLD = D 50000"

definition MIN_PRICE :: double where
  "MIN_PRICE = D 1"

text \<open>
  \<open>groupedAuctions\<close> is a \<open>Map\<close>, which keeps its keys in insertion order: an association
  list. \<open>groupPush\<close> is one round of the \<open>forEach\<close>: a new key gets an empty array at the
  end of the map, and the auction is pushed onto the array of its key.
\<close>

fun groupPush :: "(jsstring \<times> RawAuction list) list \<Rightarrow> jsstring \<Rightarrow> RawAuction
    \<Rightarrow> (jsstring \<times> RawAuction list) list" where
  "groupPush [] normalizedName auction = [(normalizedName, [auction])]"
| "groupPush ((k, auctions) # groups) normalizedName auction =
     (if k = normalizedName then (k, auctions @ [auction]) # groups
      else (k, auctions) # groupPush groups normalizedName auction)"

definition groupAuctions :: "RawAuction list \<Rightarrow> (jsstring \<times> RawAuction list) list" where
  "groupAuctions activeBins =
     foldl (\<lambda>groups auction. groupPush groups (normalizeAuctionName (item_name auction)) auction)
       [] activeBins"

text \<open>
  The body of the loop over the groups: \<open>None\<close> where the source says \<open>continue\<close> or does
  not push, the pushed flip otherwise. \<open>Array.prototype.sort\<close> with the comparator
  \<open>a.starting_bid - b.starting_bid\<close> is a stable sort by price: the difference of two
  numbers is negative, zero or positive as the first is below, equal to or above the
  second (lemma \<open>fsub_sign\<close> below).
\<close>

definition auctionFlipOfGroup :: "jsstring \<Rightarrow> RawAuction list \<Rightarrow> AuctionFlip option" where
  "auctionFlipOfGroup itemName auctions =
     (if length auctions < 2 then None
      else
        let sortedAuctions = sort_key starting_bid auctions;
            buyAuction = sortedAuctions ! 0;
            buyPrice = starting_bid buyAuction
        in if buyPrice < MIN_PRICE then None
           else
             (case findMarketPriceAuction sortedAuctions of
                None \<Rightarrow> None
              | Some marketPriceAuction \<Rightarrow>
                  let marketPrice = starting_bid marketPriceAuction
                  in if marketPrice \<le> buyPrice then None
                     else
                       let postTaxSellPrice = fsub marketPrice (calculateAhTax marketPrice);
                           profit = fsub postTaxSellPrice buyPrice
                       in if profit > PROFIT_THRESHOLD
                          then Some \<lparr>af_id = uuid buyAuction, af_itemName = itemName,
                                     af_rarity = tier buyAuction, af_lore = item_lore buyAuction,
                                     lowestBin = buyPrice, af_marketPrice = marketPrice,
                                     af_profit = math_round profit\<rparr>
                          else None))"

text \<open>
  \<open>fetchAuctionFlips\<close>, as a function of the auctions that \<open>fetchAllAuctionPages\<close> returned.
\<close>

definition fetchAuctionFlips :: "RawAuction list \<Rightarrow> AuctionFlip list" where
  "fetchAuctionFlips allAuctions =
     (let activeBins = filter (\<lambda>auc. bin auc \<and> \<not> claimed auc) allAuctions
      in List.map_filter (\<lambda>(itemName, auctions). auctionFlipOfGroup itemName auctions)
           (groupAuctions activeBins))"

section \<open>Bazaar (fetchBazaarPrices, fetchBazaarFlips)\<close>

record QuickStatus =
  sellPrice :: double
  buyPrice :: double
  buyMovingWeek :: double
  sellMovingWeek :: double

record Product =
  product_id :: jsstring
  quick_status :: "QuickStatus option"

text \<open>
  What the request to the bazaar endpoint gave: \<open>response.ok\<close>, and the fields \<open>success\<close>,
  \<open>cause\<close> and \<open>products\<close> of the JSON body, the products in the enumeration order of the
  object's keys. A request that is rejected before any response arrives is outside the
  model.
\<close>

record BazaarResponse =
  ok :: bool
  success :: bool
  cause :: "jsstring option"
  products :: "(jsstring \<times> Product) list"

record BazaarFlip =
  bf_id :: jsstring
  bf_itemName :: jsstring
  bf_buyPrice :: double
  bf_sellPrice :: double
  bf_profit :: double
  bf_buyVolume :: double
  bf_sellVolume :: double

text \<open>A thrown \<open>Error\<close>, with its message.\<close>

datatype error = Error jsstring

text \<open>An ASCII literal as a JavaScript string.\<close>

definition lit :: "string \<Rightarrow> jsstring" where
  "lit s = map (\<lambda>c. of_nat (of_char c)) s"

text \<open>
  \<open>toLowerCase\<close> and \<open>toUpperCase\<close> are built into the language and follow the Unicode case
  tables; \<open>formatItemName\<close> takes them as parameters.
\<close>

record StringOps =
  toLowerCase :: "jsstring \<Rightarrow> jsstring"
  toUpperCase :: "jsstring \<Rightarrow> jsstring"

text \<open>\<open>s.split(' ')\<close>: the pieces between the spaces, one piece for the empty string.\<close>

fun split_space :: "jsstring \<Rightarrow> jsstring list" where
  "split_space [] = [[]]"
| "split_space (c # cs) =
     (if c = 0x20 then [] # split_space cs
      else (case split_space cs of
              w # ws \<Rightarrow> (c # w) # ws
            | [] \<Rightarrow> [[c]]))"

text \<open>\<open>words.join(' ')\<close>.\<close>

fun join_space :: "jsstring list \<Rightarrow> jsstring" where
  "join_space [] = []"
| "join_space [w] = w"
| "join_space (w # v # ws) = w @ [0x20] @ join_space (v # ws)"

definition formatItemName :: "StringOps \<Rightarrow> jsstring \<Rightarrow> jsstring" where
  "formatItemName js name =
     join_space
       (map (\<lambda>word. toUpperCase js (take 1 word) @ drop 1 word)
          (split_space (toLowerCase js (map (\<lambda>c. if c = 0x5F then 0x20 else c) name))))"

record PriceInfo =
  pi_price :: double
  pi_name :: jsstring

text \<open>
  \<open>fetchBazaarPrices\<close>: the price map, a later \<open>set\<close> of a key replacing an earlier one.
\<close>

definition fetchBazaarPrices :: "StringOps \<Rightarrow> BazaarResponse \<Rightarrow> error + (jsstring \<rightharpoonup> PriceInfo)" where
  "fetchBazaarPrices js response =
     (if \<not> ok response then Inl (Error (lit ''Failed to fetch Bazaar data''))
      else if \<not> success response
      then Inl (Error (case cause response of
                         Some c \<Rightarrow> if c \<noteq> [] then c else lit ''Bazaar API call failed''
                       | None \<Rightarrow> lit ''Bazaar API call failed''))
      else Inr (foldl (\<lambda>priceMap (productId, product).
                  (case quick_status product of
                     Some status \<Rightarrow>
                       if D 0 < sellPrice status
                       then priceMap(productId \<mapsto>
                              \<lparr>pi_price = sellPrice status,
                               pi_name = formatItemName js (product_id product)\<rparr>)
                       else priceMap
                   | None \<Rightarrow> priceMap))
                Map.empty (products response)))"

text \<open>The body of the loop over the products: the pushed flip, or \<open>None\<close>.\<close>

definition bazaarFlipOfProduct :: "StringOps \<Rightarrow> jsstring \<times> Product \<Rightarrow> BazaarFlip option" where
  "bazaarFlipOfProduct js = (\<lambda>(productId, product).
     (case quick_status product of
        None \<Rightarrow> None
      | Some status \<Rightarrow>
          if D 0 < sellPrice status \<and> D 0 < buyPrice status then
            let buyFor = sellPrice status;
                sellFor = buyPrice status;
                profit = fsub sellFor buyFor
            in if D 100 < profit \<and> D 100 < buyMovingWeek status
               then Some \<lparr>bf_id = productId,
                          bf_itemName = formatItemName js (product_id product),
                          bf_buyPrice = buyFor, bf_sellPrice = sellFor, bf_profit = profit,
                          bf_buyVolume = buyMovingWeek status,
                          bf_sellVolume = sellMovingWeek status\<rparr>
               else None
          else None))"

definition fetchBazaarFlips :: "StringOps \<Rightarrow> BazaarResponse \<Rightarrow> error + BazaarFlip list" where
  "fetchBazaarFlips js response =
     (if \<not> ok response then Inl (Error (lit ''Failed to fetch Bazaar data''))
      else if \<not> success response
      then Inl (Error (case cause response of
                         Some c \<Rightarrow> if c \<noteq> [] then c else lit ''Bazaar API call failed''
                       | None \<Rightarrow> lit ''Bazaar API call failed''))
      else Inr (List.map_filter (bazaarFlipOfProduct js) (products response)))"

section \<open>Crafting profit pipeline (analyzeCraftingRecipe, fetchCraftingFlips)\<close>

record ItemForAnalysis =
  ifa_id :: jsstring
  ifa_name :: jsstring
  ifa_lore :: jsstring
  ifa_rarity :: Rarity
  ifa_price :: double

record RecipeIngredient =
  ingredientId :: jsstring
  quantity :: double

record Ingredient =
  ing_id :: jsstring
  ing_name :: jsstring
  ing_quantity :: double

record CraftingFlip =
  cf_id :: jsstring
  cf_itemName :: jsstring
  cf_rarity :: Rarity
  cf_marketPrice :: double
  craftCost :: double
  cf_profit :: double
  recipe :: "Ingredient list"

definition CRAFT_PROFIT_THRESHOLD :: double where
  "CRAFT_PROFIT_THRESHOLD = D 100000"

text \<open>
  \<open>analyzeCraftingRecipe\<close> returns the parsed reply of the model, and the empty array when
  the request or the parsing throws: the argument is the parsed reply, \<open>None\<close> for a throw.
\<close>

definition analyzeCraftingRecipe :: "RecipeIngredient list option \<Rightarrow> RecipeIngredient list" where
  "analyzeCraftingRecipe reply = (case reply of Some ingredients \<Rightarrow> ingredients | None \<Rightarrow> [])"

text \<open>
  The loop over the ingredients, from the state \<open>(craftCost, recipeForDisplay)\<close>: it ends
  with \<open>isCraftable\<close> false at the first ingredient that the price map does not have.
  \<open>craftCost += price * quantity\<close> rounds the product, then the sum.
\<close>

fun priceIngredients :: "(jsstring \<rightharpoonup> PriceInfo) \<Rightarrow> RecipeIngredient list
    \<Rightarrow> double \<times> Ingredient list \<Rightarrow> bool \<times> double \<times> Ingredient list" where
  "priceIngredients bazaarPrices [] (cost, recipeForDisplay) = (True, cost, recipeForDisplay)"
| "priceIngredients bazaarPrices (ingredient # rest) (cost, recipeForDisplay) =
     (case bazaarPrices (ingredientId ingredient) of
        None \<Rightarrow> (False, cost, recipeForDisplay)
      | Some materialInfo \<Rightarrow>
          priceIngredients bazaarPrices rest
            (fadd cost (fmul (pi_price materialInfo) (quantity ingredient)),
             recipeForDisplay @ [\<lparr>ing_id = ingredientId ingredient,
                                  ing_name = pi_name materialInfo,
                                  ing_quantity = quantity ingredient\<rparr>]))"

text \<open>
  The rest of the body of the loop over the items, after the progress report: the pushed
  flip, or \<open>None\<close>.
\<close>

definition craftingFlipOfItem :: "(jsstring \<rightharpoonup> PriceInfo) \<Rightarrow> RecipeIngredient list
    \<Rightarrow> ItemForAnalysis \<Rightarrow> CraftingFlip option" where
  "craftingFlipOfItem bazaarPrices recipeIngredients item =
     (if length recipeIngredients = 0 then None
      else
        (case priceIngredients bazaarPrices recipeIngredients (D 0, []) of
           (isCraftable, cost, recipeForDisplay) \<Rightarrow>
             if isCraftable \<and> D 0 < cost then
               let profit = fsub (fsub (ifa_price item) (calculateAhTax (ifa_price item))) cost
               in if CRAFT_PROFIT_THRESHOLD < profit
                  then Some \<lparr>cf_id = ifa_id item, cf_itemName = ifa_name item,
                             cf_rarity = ifa_rarity item, cf_marketPrice = ifa_price item,
                             craftCost = math_round cost,
                             cf_profit = math_round profit,
                             recipe = recipeForDisplay\<rparr>
                  else None
             else None))"

text \<open>
  The value passed to \<open>progressCallback\<close> after \<open>k\<close> of \<open>itemCount\<close> items:
  \<open>Math.round((processedCount / itemsToAnalyze.length) * 100)\<close>, the quotient and the product
  rounded to numbers. The loop calls it with \<open>itemCount\<close> at least 1.
\<close>

definition progressValue :: "nat \<Rightarrow> nat \<Rightarrow> double" where
  "progressValue itemCount k =
     math_round (fmul (fdiv (D (of_nat k)) (D (of_nat itemCount))) (D 100))"

text \<open>
  The state of the loop over the items: the counter, the values passed to
  \<open>progressCallback\<close> so far, in order, and the flips pushed so far.
\<close>

record craft_state =
  processedCount :: nat
  progressLog :: "double list"
  craftingFlips :: "CraftingFlip list"

text \<open>
  The loop over \<open>itemsToAnalyze\<close>, which has \<open>itemCount\<close> elements. The reply of the model to
  a request may depend on the request and on when it is made: \<open>replies k name\<close> is the reply
  to the request for \<open>name\<close> made after \<open>k\<close> earlier ones.
\<close>

fun craftLoop :: "(jsstring \<rightharpoonup> PriceInfo) \<Rightarrow> (nat \<Rightarrow> jsstring \<Rightarrow> RecipeIngredient list option)
    \<Rightarrow> nat \<Rightarrow> ItemForAnalysis list \<Rightarrow> craft_state \<Rightarrow> craft_state" where
  "craftLoop bazaarPrices replies itemCount [] st = st"
| "craftLoop bazaarPrices replies itemCount (item # rest) st =
     (let recipeIngredients = analyzeCraftingRecipe (replies (processedCount st) (ifa_name item));
          st1 = st\<lparr>processedCount := processedCount st + 1\<rparr>;
          st2 = st1\<lparr>progressLog := progressLog st1 @
                   [progressValue itemCount (processedCount st1)]\<rparr>
      in craftLoop bazaarPrices replies itemCount rest
           (case craftingFlipOfItem bazaarPrices recipeIngredients item of
              None \<Rightarrow> st2
            | Some flip \<Rightarrow> st2\<lparr>craftingFlips := craftingFlips st2 @ [flip]\<rparr>))"

text \<open>
  \<open>fetchCraftingFlips\<close>: the values passed to \<open>progressCallback\<close>, and the error thrown or
  the flips returned.
\<close>

definition fetchCraftingFlips :: "StringOps \<Rightarrow> BazaarResponse
    \<Rightarrow> (nat \<Rightarrow> jsstring \<Rightarrow> RecipeIngredient list option) \<Rightarrow> ItemForAnalysis list
    \<Rightarrow> double list \<times> (error + CraftingFlip list)" where
  "fetchCraftingFlips js response replies itemsToAnalyze =
     (case fetchBazaarPrices js response of
        Inl e \<Rightarrow> ([], Inl e)
      | Inr bazaarPrices \<Rightarrow>
          let st = craftLoop bazaarPrices replies (length itemsToAnalyze) itemsToAnalyze
                     \<lparr>processedCount = 0, progressLog = [], craftingFlips = []\<rparr>
          in (progressLog st, Inr (craftingFlips st)))"

section \<open>Concrete inputs\<close>

text \<open>The case conversions on strings of ASCII letters, digits and punctuation.\<close>

definition asciiLower :: "16 word \<Rightarrow> 16 word" where
  "asciiLower c = (if 0x41 \<le> c \<and> c \<le> 0x5A then c + 0x20 else c)"

definition asciiUpper :: "16 word \<Rightarrow> 16 word" where
  "asciiUpper c = (if 0x61 \<le> c \<and> c \<le> 0x7A then c - 0x20 else c)"

definition asciiOps :: StringOps where
  "asciiOps = \<lparr>toLowerCase = map asciiLower, toUpperCase = map asciiUpper\<rparr>"

text \<open>
  A feed of four listings: a decorated \<open>Hyperion\<close> at 1,300,000, an auction that is not
  fixed-price, a plain \<open>Hyperion\<close> at 1,000,000, and a claimed \<open>Hyperion\<close> at 500.
\<close>

definition listing :: "jsstring \<Rightarrow> jsstring \<Rightarrow> rat \<Rightarrow> RawAuction" where
  "listing u name p = \<lparr>uuid = u, item_name = name, tier = LEGENDARY, starting_bid = D p,
                       bin = True, claimed = False, item_lore = []\<rparr>"

definition hyperionFeed :: "RawAuction list" where
  "hyperionFeed =
     [listing [0x31] ([0xA7, 0x36, 0x272A, 0x20] @ Hyperion) 1300000,
      (listing [0x32] Hyperion 7) \<lparr>bin := False\<rparr>,
      listing [0x33] Hyperion 1000000,
      (listing [0x34] Hyperion 500) \<lparr>claimed := True\<rparr>]"

definition hyperionFlip :: AuctionFlip where
  "hyperionFlip = \<lparr>af_id = [0x33], af_itemName = Hyperion, af_rarity = LEGENDARY, af_lore = [],
     lowestBin = D 1000000, af_marketPrice = D 1300000, af_profit = D 274000\<rparr>"

text \<open>
  A feed of six listings of one item, the cheapest at 1,000,000 and the dearest at
  1,300,000, with four more just above the cheapest.
\<close>

definition clusteredFeed :: "RawAuction list" where
  "clusteredFeed = map (listing [] Hyperion)
     [1000000, 1300000, 1000100, 1000200, 1000300, 1000400]"

text \<open>
  A bazaar with one product, \<open>COAL\<close>, with the quotes \<open>sellPrice\<close> 28.3 and \<open>buyPrice\<close>
  128.3: as numbers, the doubles nearest to them.
\<close>

definition coalBazaar :: BazaarResponse where
  "coalBazaar = \<lparr>ok = True, success = True, cause = None,
     products = [([0x43, 0x4F, 0x41, 0x4C],
       \<lparr>product_id = [0x43, 0x4F, 0x41, 0x4C],
        quick_status = Some \<lparr>sellPrice = D (283 / 10), buyPrice = D (1283 / 10),
                              buyMovingWeek = D 5000, sellMovingWeek = D 4000\<rparr>\<rparr>)]\<rparr>"

definition coalFlip :: BazaarFlip where
  "coalFlip = \<lparr>bf_id = [0x43, 0x4F, 0x41, 0x4C], bf_itemName = [0x43, 0x6F, 0x61, 0x6C],
     bf_buyPrice = D (283 / 10), bf_sellPrice = D (1283 / 10),
     bf_profit = D (7036874417766401 / 70368744177664),
     bf_buyVolume = D 5000, bf_sellVolume = D 4000\<rparr>"

text \<open>
  A bazaar with two products, \<open>COAL\<close> quoted at 65572.4 (that is \<open>327862 / 5\<close>, as a number
  the double nearest to it) and \<open>INK\<close> quoted at 0.7, and its
  price map; a recipe of 15 coal, a recipe of 45 ink, a recipe with an ingredient that the
  bazaar does not have, and two items on sale, at 1,105,700 and at 2,000,000.
\<close>

definition craftBazaar :: BazaarResponse where
  "craftBazaar = \<lparr>ok = True, success = True, cause = None,
     products = [([0x43, 0x4F, 0x41, 0x4C],
       \<lparr>product_id = [0x43, 0x4F, 0x41, 0x4C],
        quick_status = Some \<lparr>sellPrice = D (327862 / 5), buyPrice = D 65600,
                              buyMovingWeek = D 5000, sellMovingWeek = D 4000\<rparr>\<rparr>),
      ([0x49, 0x4E, 0x4B],
       \<lparr>product_id = [0x49, 0x4E, 0x4B],
        quick_status = Some \<lparr>sellPrice = D (7 / 10), buyPrice = D 1,
                              buyMovingWeek = D 5000, sellMovingWeek = D 4000\<rparr>\<rparr>)]\<rparr>"

definition craftPrices :: "jsstring \<rightharpoonup> PriceInfo" where
  "craftPrices = [[0x43, 0x4F, 0x41, 0x4C] \<mapsto>
                    \<lparr>pi_price = D (327862 / 5), pi_name = [0x43, 0x6F, 0x61, 0x6C]\<rparr>,
                  [0x49, 0x4E, 0x4B] \<mapsto>
                    \<lparr>pi_price = D (7 / 10), pi_name = [0x49, 0x6E, 0x6B]\<rparr>]"

text \<open>A price map with coal at 1000.\<close>

definition wholePrices :: "jsstring \<rightharpoonup> PriceInfo" where
  "wholePrices = [[0x43, 0x4F, 0x41, 0x4C] \<mapsto>
                    \<lparr>pi_price = D 1000, pi_name = [0x43, 0x6F, 0x61, 0x6C]\<rparr>]"

definition coalRecipe :: "RecipeIngredient list" where
  "coalRecipe = [\<lparr>ingredientId = [0x43, 0x4F, 0x41, 0x4C], quantity = D 15\<rparr>]"

definition inkRecipe :: "RecipeIngredient list" where
  "inkRecipe = [\<lparr>ingredientId = [0x49, 0x4E, 0x4B], quantity = D 45\<rparr>]"

definition mixedRecipe :: "RecipeIngredient list" where
  "mixedRecipe = [\<lparr>ingredientId = [0x43, 0x4F, 0x41, 0x4C], quantity = D 15\<rparr>,
                  \<lparr>ingredientId = [0x58], quantity = D 1\<rparr>]"

definition craftedItem :: ItemForAnalysis where
  "craftedItem = \<lparr>ifa_id = [], ifa_name = Hyperion, ifa_lore = [], ifa_rarity = LEGENDARY,
                   ifa_price = D 1105700\<rparr>"

definition dearItem :: ItemForAnalysis where
  "dearItem = \<lparr>ifa_id = [], ifa_name = Hyperion, ifa_lore = [], ifa_rarity = LEGENDARY,
                ifa_price = D 2000000\<rparr>"

definition coalCraft :: CraftingFlip where
  "coalCraft = \<lparr>cf_id = [], cf_itemName = Hyperion, cf_rarity = LEGENDARY,
     cf_marketPrice = D 1105700, craftCost = D 983586, cf_profit = D 100000,
     recipe = [\<lparr>ing_id = [0x43, 0x4F, 0x41, 0x4C], ing_name = [0x43, 0x6F, 0x61, 0x6C],
                ing_quantity = D 15\<rparr>]\<rparr>"

definition inkCraft :: CraftingFlip where
  "inkCraft = \<lparr>cf_id = [], cf_itemName = Hyperion, cf_rarity = LEGENDARY,
     cf_marketPrice = D 2000000, craftCost = D 31, cf_profit = D 1959969,
     recipe = [\<lparr>ing_id = [0x49, 0x4E, 0x4B], ing_name = [0x49, 0x6E, 0x6B],
                ing_quantity = D 45\<rparr>]\<rparr>"

text \<open>A model that answers every request with the coal recipe.\<close>

definition coalReply :: "nat \<Rightarrow> jsstring \<Rightarrow> RecipeIngredient list option" where
  "coalReply k name = Some coalRecipe"

text \<open>A model that answers every second request, and throws on the others.\<close>

definition mixedReply :: "nat \<Rightarrow> jsstring \<Rightarrow> RecipeIngredient list option" where
  "mixedReply k name = (if even k then Some coalRecipe else None)"

section \<open>Rounding to the nearest double\<close>

lemma rne_cases:
  "rne y = \<lfloor>y\<rfloor> \<or> rne y = \<lfloor>y\<rfloor> + 1"
  by (simp add: rne_def Let_def)

lemma rne_of_int [simp]: "rne (of_int n) = n"
  by (simp add: rne_def)

lemma rne_down: "y - of_int \<lfloor>y\<rfloor> < 1 / 2 \<Longrightarrow> rne y = \<lfloor>y\<rfloor>"
  by (simp add: rne_def)

lemma rne_up: "1 / 2 < y - of_int \<lfloor>y\<rfloor> \<Longrightarrow> rne y = \<lfloor>y\<rfloor> + 1"
  by (simp add: rne_def)

lemma rne_mono:
  assumes "x \<le> y"
  shows "rne x \<le> rne y"
proof (cases "\<lfloor>x\<rfloor> = \<lfloor>y\<rfloor>")
  case False
  with assms have "\<lfloor>x\<rfloor> < \<lfloor>y\<rfloor>" using floor_mono [OF assms] by linarith
  then have "\<lfloor>x\<rfloor> + 1 \<le> \<lfloor>y\<rfloor>" by simp
  moreover have "rne x \<le> \<lfloor>x\<rfloor> + 1" using rne_cases [of x] by linarith
  moreover have "\<lfloor>y\<rfloor> \<le> rne y" using rne_cases [of y] by linarith
  ultimately show ?thesis by linarith
next
  case True
  then have "x - of_int \<lfloor>x\<rfloor> \<le> y - of_int \<lfloor>y\<rfloor>" using assms by simp
  with True show ?thesis by (auto simp add: rne_def Let_def)
qed

lemma rne_error: "\<bar>of_int (rne y) - y\<bar> \<le> 1 / 2"
proof -
  have "of_int \<lfloor>y\<rfloor> \<le> y" "y < of_int \<lfloor>y\<rfloor> + 1" by linarith+
  then show ?thesis by (auto simp add: rne_def Let_def abs_le_iff)
qed

lemma rne_ge: "of_int n \<le> y \<Longrightarrow> n \<le> rne y"
  using rne_mono [of "of_int n" y] by simp

lemma rne_le: "y \<le> of_int n \<Longrightarrow> rne y \<le> n"
  using rne_mono [of y "of_int n"] by simp

lemma expo_bounds:
  assumes "0 < x"
  shows "2 powi expo x \<le> x" and "x < 2 powi (expo x + 1)"
proof -
  have "2 powi expo x \<le> x \<and> x < 2 powi (expo x + 1)"
  proof (cases "1 \<le> x")
    case True
    let ?m = "\<lfloor>x\<rfloor>"
    from True have m: "0 < ?m" by simp
    then have b1: "1 \<le> bitlen ?m" using bitlen_eq_zero_iff [of ?m] bitlen_nonneg [of ?m]
      by (cases "bitlen ?m = 0") (simp, linarith)
    from bitlen_bounds [OF m] have lo: "2 ^ nat (bitlen ?m - 1) \<le> ?m"
      and hi: "?m < 2 ^ nat (bitlen ?m)" by simp_all
    have e: "expo x = bitlen ?m - 1" using True by (simp add: expo_def)
    have "(2 :: rat) powi (bitlen ?m - 1) = of_int (2 ^ nat (bitlen ?m - 1))"
      using b1 by (simp add: power_int_def)
    also have "\<dots> \<le> of_int ?m" using lo by (simp only: of_int_le_iff)
    also have "\<dots> \<le> x" by simp
    finally have 1: "2 powi expo x \<le> x" by (simp add: e)
    from hi have "?m + 1 \<le> 2 ^ nat (bitlen ?m)" by simp
    then have "(of_int (?m + 1) :: rat) \<le> of_int (2 ^ nat (bitlen ?m))"
      by (simp only: of_int_le_iff)
    moreover have "x < of_int (?m + 1)" by linarith
    moreover have "(2 :: rat) powi (bitlen ?m) = of_int (2 ^ nat (bitlen ?m))"
      using b1 by (simp add: power_int_def)
    ultimately have 2: "x < 2 powi (expo x + 1)" by (simp add: e)
    from 1 2 show ?thesis ..
  next
    case False
    let ?y = "1 / x"
    let ?m = "\<lceil>?y\<rceil>"
    let ?k = "bitlen (?m - 1)"
    from False assms have y1: "1 < ?y" by simp
    then have m2: "2 \<le> ?m" by (simp add: le_ceiling_iff)
    then have m1: "0 < ?m - 1" by simp
    then have k1: "1 \<le> ?k" using bitlen_eq_zero_iff [of "?m - 1"] bitlen_nonneg [of "?m - 1"]
      by (cases "?k = 0") (simp, linarith)
    from bitlen_bounds [OF m1] have lo: "2 ^ nat (?k - 1) \<le> ?m - 1"
      and hi: "?m - 1 < 2 ^ nat ?k" by simp_all
    have e: "expo x = - ?k" using False by (simp add: expo_def)
    have pk: "(2 :: rat) powi ?k = of_int (2 ^ nat ?k)" using k1 by (simp add: power_int_def)
    have pk1: "(2 :: rat) powi (?k - 1) = of_int (2 ^ nat (?k - 1))"
      using k1 by (simp add: power_int_def)
    from hi have "?m \<le> 2 ^ nat ?k" by simp
    then have "(of_int ?m :: rat) \<le> of_int (2 ^ nat ?k)" by (simp only: of_int_le_iff)
    moreover have "?y \<le> of_int ?m" by simp
    ultimately have "?y \<le> 2 powi ?k" using pk by linarith
    then have "1 \<le> 2 powi ?k * x" using assms by (simp add: field_simps)
    moreover have "(0 :: rat) < 2 powi ?k" by simp
    ultimately have "inverse (2 powi ?k) \<le> x" by (simp add: field_simps)
    moreover have "inverse ((2 :: rat) powi ?k) = 2 powi (- ?k)"
      by (simp only: power_int_minus)
    ultimately have 1: "2 powi expo x \<le> x" by (simp add: e)
    have "(of_int (2 ^ nat (?k - 1)) :: rat) \<le> of_int (?m - 1)" using lo by (simp only: of_int_le_iff)
    moreover have "of_int (?m - 1) < ?y" using ceiling_correct [of ?y] by simp
    ultimately have "2 powi (?k - 1) < ?y" using pk1 by linarith
    then have "2 powi (?k - 1) * x < 1" using assms by (simp add: field_simps)
    moreover have "(0 :: rat) < 2 powi (?k - 1)" by simp
    ultimately have "x < inverse (2 powi (?k - 1))" by (simp add: field_simps)
    also have "inverse ((2 :: rat) powi (?k - 1)) = 2 powi (- (?k - 1))"
      by (simp only: power_int_minus)
    also have "- (?k - 1) = expo x + 1" by (simp add: e)
    finally have 2: "x < 2 powi (expo x + 1)" .
    from 1 2 show ?thesis ..
  qed
  then show "2 powi expo x \<le> x" and "x < 2 powi (expo x + 1)" by simp_all
qed

lemma two_powi_less_iff: "(2 :: rat) powi a < 2 powi b \<longleftrightarrow> a < b"
  by (metis linorder_not_less one_less_numeral_iff order_less_le power_int_increasing power_int_strict_increasing semiring_norm(76) less_imp_le)

lemma two_powi_le_iff: "(2 :: rat) powi a \<le> 2 powi b \<longleftrightarrow> a \<le> b"
  by (metis two_powi_less_iff linorder_not_less order_le_less)

lemma expo_unique:
  assumes "2 powi e \<le> x" and "x < 2 powi (e + 1)"
  shows "expo x = e"
proof -
  have pos: "0 < x" using assms(1) zero_less_power_int [of "2 :: rat" e] by linarith
  note b = expo_bounds [OF pos]
  from b(1) assms(2) have "(2 :: rat) powi expo x < 2 powi (e + 1)" by linarith
  then have 1: "expo x < e + 1" by (simp only: two_powi_less_iff)
  from assms(1) b(2) have "(2 :: rat) powi e < 2 powi (expo x + 1)" by linarith
  then have 2: "e < expo x + 1" by (simp only: two_powi_less_iff)
  from 1 2 show ?thesis by linarith
qed

lemma expo_mono:
  assumes "0 < x" and "x \<le> y"
  shows "expo x \<le> expo y"
proof -
  have "0 < y" using assms by linarith
  from expo_bounds(1) [OF assms(1)] expo_bounds(2) [OF this] assms(2)
  have "(2 :: rat) powi expo x < 2 powi (expo y + 1)" by linarith
  then show ?thesis by (simp add: two_powi_less_iff)
qed

lemma quantum_pos [simp]: "0 < quantum x"
  by (simp add: quantum_def)

lemma quantum_nonneg [simp]: "0 \<le> quantum x"
  using quantum_pos [of x] by linarith

lemma quantum_nonzero [simp]: "quantum x \<noteq> 0"
  using quantum_pos [of x] by linarith

lemma quantum_times_52: "quantum x * 4503599627370496 = 2 powi (max (expo x) (- 1022))"
proof -
  have "(2 :: rat) powi (max (expo x) (- 1022)) = 2 powi ((max (expo x) (- 1022) - 52) + 52)"
    by simp
  also have "\<dots> = 2 powi (max (expo x) (- 1022) - 52) * 2 powi 52"
    by (rule power_int_add) simp
  finally show ?thesis by (simp add: quantum_def)
qed

lemma quantum_times_53: "quantum x * 9007199254740992 = 2 powi (max (expo x) (- 1022) + 1)"
proof -
  have "max (expo x) (- 1022) + 1 = (max (expo x) (- 1022) - 52) + 53" by simp
  then have "(2 :: rat) powi (max (expo x) (- 1022) + 1) = 2 powi ((max (expo x) (- 1022) - 52) + 53)"
    by (simp only:)
  also have "\<dots> = 2 powi (max (expo x) (- 1022) - 52) * 2 powi 53"
    by (rule power_int_add) simp
  finally show ?thesis by (simp add: quantum_def)
qed

lemma rnd64_pos: "0 < x \<Longrightarrow> rnd64 x = quantum x * of_int (rne (x / quantum x))"
  by (simp add: rnd64_def)

lemma rnd64_zero [simp]: "rnd64 0 = 0"
  by (simp add: rnd64_def)

lemma rnd64_minus: "rnd64 (- x) = - rnd64 x"
  by (simp add: rnd64_def sgn_minus)

lemma below_next_power:
  assumes "0 < x"
  shows "x < 2 powi (max (expo x) (- 1022) + 1)"
proof -
  have "x < 2 powi (expo x + 1)" by (rule expo_bounds(2) [OF assms])
  also have "\<dots> \<le> 2 powi (max (expo x) (- 1022) + 1)"
    by (simp add: two_powi_le_iff)
  finally show ?thesis .
qed

lemma scaled_less_53:
  assumes "0 < x"
  shows "x / quantum x < 9007199254740992"
proof -
  have "x < quantum x * 9007199254740992"
    using below_next_power [OF assms] by (simp only: quantum_times_53)
  then show ?thesis by (simp add: field_simps)
qed

lemma rne_scaled_le_53:
  assumes "0 < x"
  shows "rne (x / quantum x) \<le> 9007199254740992"
proof -
  have "x / quantum x \<le> of_int 9007199254740992" using scaled_less_53 [OF assms] by simp
  then show ?thesis by (rule rne_le)
qed

lemma rne_scaled_nonneg:
  assumes "0 < x"
  shows "0 \<le> rne (x / quantum x)"
proof -
  have "of_int 0 \<le> x / quantum x" using assms by simp
  then show ?thesis by (rule rne_ge)
qed

lemma rnd64_pos_nonneg: "0 < x \<Longrightarrow> 0 \<le> rnd64 x"
  using rne_scaled_nonneg [of x] by (simp add: rnd64_pos zero_le_mult_iff)

lemma rnd64_nonneg: "0 \<le> x \<Longrightarrow> 0 \<le> rnd64 x"
  using rnd64_pos_nonneg [of x] by (cases "x = 0") simp_all

lemma rnd64_le_next_power:
  assumes "0 < x"
  shows "rnd64 x \<le> 2 powi (max (expo x) (- 1022) + 1)"
proof -
  have "(of_int (rne (x / quantum x)) :: rat) \<le> of_int 9007199254740992"
    using rne_scaled_le_53 [OF assms] by (simp only: of_int_le_iff)
  then have "quantum x * of_int (rne (x / quantum x)) \<le> quantum x * 9007199254740992"
    by (intro mult_left_mono) simp_all
  then show ?thesis using assms by (simp only: rnd64_pos quantum_times_53)
qed

lemma rnd64_ge_power:
  assumes "0 < x" and "- 1022 \<le> expo x"
  shows "2 powi expo x \<le> rnd64 x"
proof -
  have m: "max (expo x) (- 1022) = expo x" using assms(2) by simp
  have "quantum x * 4503599627370496 \<le> x"
    using expo_bounds(1) [OF assms(1)] by (simp only: quantum_times_52 m)
  then have "of_int 4503599627370496 \<le> x / quantum x" by (simp add: field_simps)
  then have "4503599627370496 \<le> rne (x / quantum x)" by (rule rne_ge)
  then have "(of_int 4503599627370496 :: rat) \<le> of_int (rne (x / quantum x))"
    by (simp only: of_int_le_iff)
  then have "quantum x * 4503599627370496 \<le> quantum x * of_int (rne (x / quantum x))"
    by (intro mult_left_mono) simp_all
  then show ?thesis using assms(1) by (simp only: rnd64_pos quantum_times_52 m)
qed

lemma rnd64_mono_pos:
  assumes "0 < x" and "x \<le> y"
  shows "rnd64 x \<le> rnd64 y"
proof -
  have y: "0 < y" using assms by linarith
  let ?ex = "max (expo x) (- 1022)" and ?ey = "max (expo y) (- 1022)"
  have le: "?ex \<le> ?ey" using expo_mono [OF assms] by linarith
  show ?thesis
  proof (cases "?ex = ?ey")
    case True
    then have q: "quantum x = quantum y" by (simp add: quantum_def)
    have "x / quantum y \<le> y / quantum y" using assms(2) by (simp add: divide_right_mono)
    then have "rne (x / quantum y) \<le> rne (y / quantum y)" by (rule rne_mono)
    then have "(of_int (rne (x / quantum y)) :: rat) \<le> of_int (rne (y / quantum y))"
      by (simp only: of_int_le_iff)
    then have "quantum y * of_int (rne (x / quantum y)) \<le> quantum y * of_int (rne (y / quantum y))"
      by (simp add: mult_left_mono)
    then show ?thesis using assms(1) y by (simp add: rnd64_pos q)
  next
    case False
    with le have lt: "?ex < ?ey" by linarith
    then have ny: "- 1022 \<le> expo y" and ey: "?ey = expo y" by linarith+
    have "rnd64 x \<le> 2 powi (?ex + 1)" by (rule rnd64_le_next_power [OF assms(1)])
    also have "\<dots> \<le> 2 powi expo y"
    proof -
      have "?ex + 1 \<le> expo y" using lt ey by linarith
      then show ?thesis by (simp only: two_powi_le_iff)
    qed
    also have "\<dots> \<le> rnd64 y" by (rule rnd64_ge_power [OF y ny])
    finally show ?thesis .
  qed
qed

lemma rnd64_mono:
  assumes "x \<le> y"
  shows "rnd64 x \<le> rnd64 y"
proof -
  consider "0 < x" | "x = 0" | "x < 0" "0 \<le> y" | "x < 0" "y < 0" by linarith
  then show ?thesis
  proof cases
    case 1
    then show ?thesis using assms by (rule rnd64_mono_pos)
  next
    case 2
    then show ?thesis using assms rnd64_nonneg [of y] by simp
  next
    case 3
    then have "0 \<le> rnd64 (- x)" by (intro rnd64_nonneg) simp
    then have "rnd64 x \<le> 0" using rnd64_minus [of x] by simp
    also have "0 \<le> rnd64 y" using 3 by (intro rnd64_nonneg)
    finally show ?thesis .
  next
    case 4
    then have "rnd64 (- y) \<le> rnd64 (- x)" using assms by (intro rnd64_mono_pos) simp_all
    then show ?thesis by (simp add: rnd64_minus)
  qed
qed

lemma rnd64_idem_pos:
  assumes "0 < x"
  shows "rnd64 (rnd64 x) = rnd64 x"
proof (cases "rnd64 x = 0")
  case True
  then show ?thesis by simp
next
  case False
  let ?e = "max (expo x) (- 1022)"
  let ?n = "rne (x / quantum x)"
  let ?v = "rnd64 x"
  have v: "?v = quantum x * of_int ?n" using assms by (rule rnd64_pos)
  have vpos: "0 < ?v" using False rnd64_pos_nonneg [OF assms] by linarith
  have n53: "?n \<le> 9007199254740992" by (rule rne_scaled_le_53 [OF assms])
  have qv: "quantum ?v = quantum x \<or> (quantum ?v = 2 * quantum x \<and> ?n = 9007199254740992)"
  proof (cases "?n = 9007199254740992")
    case True
    then have "?v = quantum x * 9007199254740992" using v by simp
    then have ve: "?v = 2 powi (?e + 1)" by (simp only: quantum_times_53)
    have "expo ?v = ?e + 1"
    proof (rule expo_unique)
      show "2 powi (?e + 1) \<le> ?v" using ve by simp
      have "(2 :: rat) powi (?e + 1) < 2 powi (?e + 1 + 1)" by (simp add: two_powi_less_iff)
      then show "?v < 2 powi (?e + 1 + 1)" using ve by simp
    qed
    then have "max (expo ?v) (- 1022) = ?e + 1" by simp
    then have "quantum ?v = 2 powi ((?e - 52) + 1)" by (simp add: quantum_def algebra_simps)
    also have "\<dots> = 2 powi (?e - 52) * 2 powi 1" by (rule power_int_add) simp
    finally have "quantum ?v = 2 * quantum x" by (simp add: quantum_def)
    with True show ?thesis by simp
  next
    case False
    with n53 have nlt: "?n < 9007199254740992" by linarith
    then have "(of_int ?n :: rat) < of_int 9007199254740992" by (simp only: of_int_less_iff)
    then have "quantum x * of_int ?n < quantum x * 9007199254740992"
      by (intro mult_strict_left_mono) simp_all
    then have vlt: "?v < 2 powi (?e + 1)" by (simp only: v quantum_times_53)
    have "max (expo ?v) (- 1022) = ?e"
    proof (cases "- 1022 \<le> expo x")
      case True
      then have m: "?e = expo x" by simp
      have "2 powi expo x \<le> ?v" by (rule rnd64_ge_power [OF assms True])
      moreover have "?v < 2 powi (expo x + 1)" using vlt by (simp only: m)
      ultimately have "expo ?v = expo x" by (rule expo_unique)
      then show ?thesis using m by simp
    next
      case False
      then have m: "?e = - 1022" by simp
      have "?v < 2 powi (expo ?v + 1)" "2 powi expo ?v \<le> ?v"
        using expo_bounds [OF vpos] by simp_all
      with vlt have "(2 :: rat) powi expo ?v < 2 powi (?e + 1)" by linarith
      then have "expo ?v < ?e + 1" by (simp only: two_powi_less_iff)
      then show ?thesis using m by simp
    qed
    then show ?thesis by (simp add: quantum_def)
  qed
  have r: "rnd64 ?v = quantum ?v * of_int (rne (?v / quantum ?v))" using vpos by (rule rnd64_pos)
  from qv show ?thesis
  proof
    assume q: "quantum ?v = quantum x"
    have "?v / quantum x = of_int ?n" unfolding v by simp
    then have "rne (?v / quantum x) = ?n" by (simp only: rne_of_int)
    then have "quantum x * of_int (rne (?v / quantum x)) = ?v" unfolding v by simp
    then show ?thesis unfolding r q .
  next
    assume q: "quantum ?v = 2 * quantum x \<and> ?n = 9007199254740992"
    then have v53: "?v = quantum x * 9007199254740992" unfolding v by simp
    have "quantum x * 9007199254740992 / (2 * quantum x) = of_int 4503599627370496" by simp
    then have "rne (quantum x * 9007199254740992 / (2 * quantum x)) = 4503599627370496"
      by (simp only: rne_of_int)
    then have "rne (?v / (2 * quantum x)) = 4503599627370496" unfolding v53 .
    then have "2 * quantum x * of_int (rne (?v / (2 * quantum x))) = quantum x * 9007199254740992"
      by simp
    then have "2 * quantum x * of_int (rne (?v / (2 * quantum x))) = ?v" unfolding v53 .
    then show ?thesis unfolding r using q by simp
  qed
qed

lemma rnd64_idem [simp]: "rnd64 (rnd64 x) = rnd64 x"
proof -
  consider "0 < x" | "x = 0" | "x < 0" by linarith
  then show ?thesis
  proof cases
    case 1
    then show ?thesis by (rule rnd64_idem_pos)
  next
    case 2
    then show ?thesis by simp
  next
    case 3
    then have "rnd64 (rnd64 (- x)) = rnd64 (- x)" by (intro rnd64_idem_pos) simp
    then show ?thesis by (simp add: rnd64_minus)
  qed
qed

lemma rnd64_of_int:
  assumes "\<bar>n\<bar> < 9007199254740992"
  shows "rnd64 (of_int n) = of_int n"
proof -
  have pos: "rnd64 (of_int m) = of_int m" if "0 < m" "m < 9007199254740992" for m :: int
  proof -
    let ?x = "of_int m :: rat"
    have x: "0 < ?x" using that by simp
    have x1: "1 \<le> ?x" using that by simp
    have "(2 :: rat) powi 0 \<le> ?x" using x1 by simp
    also have "?x < 2 powi (expo ?x + 1)" by (rule expo_bounds(2) [OF x])
    finally have "0 < expo ?x + 1" by (simp only: two_powi_less_iff)
    then have e0: "0 \<le> expo ?x" by linarith
    have "2 powi expo ?x \<le> ?x" by (rule expo_bounds(1) [OF x])
    also have "?x < 2 powi 53" using that by simp
    finally have "expo ?x < 53" by (simp only: two_powi_less_iff)
    then have e52: "expo ?x \<le> 52" by linarith
    define j where "j = nat (52 - expo ?x)"
    have q: "quantum ?x = 2 powi (- int j)" using e0 e52 by (simp add: quantum_def j_def)
    have "?x / quantum ?x = ?x * 2 ^ j" by (simp add: q power_int_minus field_simps)
    also have "\<dots> = of_int (m * 2 ^ j)" by simp
    finally have "rne (?x / quantum ?x) = m * 2 ^ j" by (simp only: rne_of_int)
    then have "rnd64 ?x = quantum ?x * of_int (m * 2 ^ j)" using x by (simp add: rnd64_pos)
    also have "\<dots> = ?x" by (simp add: q power_int_minus field_simps)
    finally show ?thesis .
  qed
  consider "0 < n" | "n = 0" | "n < 0" by linarith
  then show ?thesis
  proof cases
    case 1
    then show ?thesis using assms by (intro pos) simp_all
  next
    case 2
    then show ?thesis by simp
  next
    case 3
    then have "rnd64 (of_int (- n)) = of_int (- n)" using assms by (intro pos) simp_all
    then show ?thesis by (simp add: rnd64_minus)
  qed
qed

lemma rnd64_numeral [simp]:
  "numeral k < (9007199254740992 :: int) \<Longrightarrow> rnd64 (numeral k) = numeral k"
  using rnd64_of_int [of "numeral k"] by simp

lemma rnd64_one [simp]: "rnd64 1 = 1"
  using rnd64_of_int [of 1] by simp

lemma rnd64_error:
  assumes "2 powi (- 1022) \<le> x"
  shows "\<bar>rnd64 x - x\<bar> \<le> x / 9007199254740992"
proof -
  have pos: "0 < x" using assms zero_less_power_int [of "2 :: rat" "- 1022"] by linarith
  have "(2 :: rat) powi (- 1022) < 2 powi (expo x + 1)"
    using assms expo_bounds(2) [OF pos] by linarith
  then have "- 1022 < expo x + 1" by (simp only: two_powi_less_iff)
  then have m: "max (expo x) (- 1022) = expo x" by linarith
  have q52: "quantum x * 4503599627370496 \<le> x"
    using expo_bounds(1) [OF pos] by (simp only: quantum_times_52 m)
  have "\<bar>of_int (rne (x / quantum x)) - x / quantum x\<bar> \<le> 1 / 2" by (rule rne_error)
  then have "quantum x * \<bar>of_int (rne (x / quantum x)) - x / quantum x\<bar> \<le> quantum x * (1 / 2)"
    by (intro mult_left_mono) simp_all
  moreover have "quantum x * \<bar>of_int (rne (x / quantum x)) - x / quantum x\<bar>
      = \<bar>quantum x * of_int (rne (x / quantum x)) - x\<bar>"
  proof -
    have "quantum x * \<bar>of_int (rne (x / quantum x)) - x / quantum x\<bar>
        = \<bar>quantum x * (of_int (rne (x / quantum x)) - x / quantum x)\<bar>"
      by (simp add: abs_mult)
    also have "quantum x * (of_int (rne (x / quantum x)) - x / quantum x)
        = quantum x * of_int (rne (x / quantum x)) - x"
      by (simp add: right_diff_distrib)
    finally show ?thesis .
  qed
  ultimately have "\<bar>rnd64 x - x\<bar> \<le> quantum x / 2" using pos by (simp add: rnd64_pos)
  also have "\<dots> \<le> x / 9007199254740992" using q52 by simp
  finally show ?thesis .
qed

lemma val_D [simp]: "val (D x) = rnd64 x"
  by (simp add: val_def D_def Abs_double_inverse)

lemma rnd64_val [simp]: "rnd64 (val d) = val d"
proof -
  have "val d \<in> range rnd64" unfolding val_def by (rule Rep_double)
  then obtain z where "val d = rnd64 z" by blast
  then show ?thesis by simp
qed

lemma D_val [simp]: "D (val d) = d"
  by (simp add: D_def) (simp add: val_def Rep_double_inverse)

lemma double_eq_iff: "a = b \<longleftrightarrow> val a = val b"
  by (simp add: val_def Rep_double_inject)

lemmas double_eval =
  less_eq_double_def less_double_def double_eq_iff fadd_def fsub_def fmul_def fdiv_def
  math_round_def

lemma val_D_numeral [simp]:
  "numeral k < (9007199254740992 :: int) \<Longrightarrow> val (D (numeral k)) = numeral k"
  by simp

lemma val_D_zero [simp]: "val (D 0) = 0"
  by simp

lemma val_fsub_nonneg: "a \<le> b \<Longrightarrow> 0 \<le> val (fsub b a)"
  using rnd64_nonneg [of "val b - val a"] by (simp add: fsub_def less_eq_double_def)

lemma val_fmul_nonneg: "0 \<le> val a \<Longrightarrow> 0 \<le> val b \<Longrightarrow> 0 \<le> val (fmul a b)"
  using rnd64_nonneg [of "val a * val b"] by (simp add: fmul_def)

lemma fadd_nonneg_ge: "0 \<le> val b \<Longrightarrow> a \<le> fadd a b"
  using rnd64_mono [of "val a" "val a + val b"] by (simp add: fadd_def less_eq_double_def)

lemma MIN_VALUE_pos: "0 < MIN_VALUE"
  unfolding MIN_VALUE_def by (rule zero_less_power_int) simp

lemma quantum_multiple: "\<exists>k :: nat. quantum x = MIN_VALUE * 2 ^ k"
proof -
  define e :: int where "e = - 1074"
  define j where "j = max (expo x) (- 1022) - 52"
  have j: "e \<le> j" by (simp add: e_def j_def)
  have "j = e + int (nat (j - e))" using j by simp
  then have "(2 :: rat) powi j = 2 powi (e + int (nat (j - e)))" by simp
  also have "\<dots> = 2 powi e * 2 powi int (nat (j - e))"
    by (rule power_int_add) simp
  also have "2 powi int (nat (j - e)) = (2 :: rat) ^ nat (j - e)"
    by (rule power_int_of_nat)
  finally have "quantum x = MIN_VALUE * 2 ^ nat (j - e)"
    unfolding quantum_def MIN_VALUE_def j_def e_def .
  then show ?thesis by blast
qed

lemma rnd64_multiple: "\<exists>m :: int. rnd64 x = of_int m * MIN_VALUE"
proof (cases "x = 0")
  case True
  have "rnd64 x = of_int 0 * MIN_VALUE" using True by simp
  then show ?thesis by blast
next
  case False
  obtain k :: nat where k: "quantum \<bar>x\<bar> = MIN_VALUE * 2 ^ k"
    using quantum_multiple by blast
  let ?r = "rne (\<bar>x\<bar> / quantum \<bar>x\<bar>)"
  have "sgn x = of_int 1 \<or> sgn x = of_int (- 1)" using False by (simp add: sgn_if)
  then obtain s :: int where s: "sgn x = of_int s" by blast
  have "rnd64 x = sgn x * (quantum \<bar>x\<bar> * of_int ?r)" using False by (simp add: rnd64_def)
  also have "\<dots> = of_int (s * 2 ^ k * ?r) * MIN_VALUE"
    unfolding s k by simp
  finally show ?thesis by blast
qed

lemma rnd64_MIN_VALUE: "rnd64 MIN_VALUE = MIN_VALUE"
proof -
  define e :: int where "e = - 1074"
  define u :: rat where "u = 2 powi e"
  have m: "MIN_VALUE = u" by (simp only: MIN_VALUE_def u_def e_def)
  have p: "0 < u" unfolding u_def by (rule zero_less_power_int) simp
  have "u < 2 powi (e + 1)" unfolding u_def two_powi_less_iff by simp
  moreover have "2 powi e \<le> u" unfolding u_def by simp
  ultimately have ex: "expo u = e" by (intro expo_unique)
  have mx: "max e (- 1022) - 52 = e" by (simp add: e_def)
  have "quantum u = 2 powi e" unfolding quantum_def ex mx ..
  then have q: "quantum u = u" unfolding u_def .
  have "rnd64 u = quantum u * of_int (rne (u / quantum u))" using p by (rule rnd64_pos)
  also have "\<dots> = u * of_int (rne (of_int 1))" unfolding q using p by simp
  also have "\<dots> = u" unfolding rne_of_int by simp
  finally show ?thesis unfolding m .
qed

text \<open>
  The difference of two numbers has the sign of their comparison: no difference of two
  distinct doubles rounds to zero.
\<close>

lemma fsub_sign:
  "(fsub a b < D 0 \<longleftrightarrow> a < b) \<and> (fsub a b = D 0 \<longleftrightarrow> a = b) \<and> (D 0 < fsub a b \<longleftrightarrow> b < a)"
proof -
  have pos: "0 < rnd64 (val y - val x)" if "x < y" for x y :: double
  proof -
    obtain m where m: "rnd64 (val x) = of_int m * MIN_VALUE"
      using rnd64_multiple by blast
    obtain n where n: "rnd64 (val y) = of_int n * MIN_VALUE"
      using rnd64_multiple by blast
    note p = MIN_VALUE_pos
    have d: "val y - val x = of_int (n - m) * MIN_VALUE"
      using m n by (simp add: algebra_simps)
    from that have "0 < val y - val x" by (simp add: less_double_def)
    then have "0 < (of_int (n - m) :: rat)" unfolding d using p by (simp add: zero_less_mult_iff)
    then have "1 \<le> n - m" by simp
    then have "(1 :: rat) \<le> of_int (n - m)" by (metis of_int_1_le_iff)
    then have "1 * MIN_VALUE \<le> (of_int (n - m) :: rat) * MIN_VALUE"
      using p by (intro mult_right_mono) simp_all
    then have "MIN_VALUE \<le> val y - val x" unfolding d by simp
    from rnd64_mono [OF this] p show ?thesis unfolding rnd64_MIN_VALUE by linarith
  qed
  have neg: "rnd64 (val x - val y) < 0" if "x < y" for x y :: double
  proof -
    have "rnd64 (val x - val y) = - rnd64 (val y - val x)"
      using rnd64_minus [of "val y - val x"] by simp
    with pos [OF that] show ?thesis by simp
  qed
  consider "a < b" | "a = b" | "b < a" by (metis less_linear)
  then show ?thesis
  proof cases
    case 1
    with neg [OF 1] show ?thesis by (simp add: double_eval)
  next
    case 2
    then show ?thesis by (simp add: double_eval)
  next
    case 3
    with pos [OF 3] show ?thesis by (simp add: double_eval)
  qed
qed

section \<open>The estimator on sorted groups\<close>

lemma quartile_bounds:
  fixes n :: nat
  assumes "0 < n"
  shows "n div 4 < n" and "n * 3 div 4 < n" and "n div 4 \<le> n * 3 div 4"
proof -
  show "n div 4 < n" using assms by (simp add: div_less_iff_less_mult)
  show "n * 3 div 4 < n" using assms by (simp add: div_less_iff_less_mult)
  show "n div 4 \<le> n * 3 div 4" by (rule div_le_mono) simp
qed

lemma q_indices_in_range:
  "ps \<noteq> [] \<Longrightarrow> q1Index ps < length ps \<and> q3Index ps < length ps \<and> q1Index ps \<le> q3Index ps"
  using quartile_bounds [of "length ps"] by (simp add: q1Index_def q3Index_def)

lemma upperBound_ge_q3:
  assumes "sorted ps" "ps \<noteq> []"
  shows "ps ! q3Index ps \<le> upperBound ps"
proof -
  let ?q1 = "ps ! q1Index ps" and ?q3 = "ps ! q3Index ps"
  have "?q1 \<le> ?q3"
    using assms q_indices_in_range [of ps] by (simp add: sorted_iff_nth_mono)
  then have "0 \<le> val (fsub ?q3 ?q1)" by (rule val_fsub_nonneg)
  then have "0 \<le> val (fmul (D 2) (fsub ?q3 ?q1))" by (intro val_fmul_nonneg) simp_all
  then have "?q3 \<le> fadd ?q3 (fmul (D 2) (fsub ?q3 ?q1))" by (rule fadd_nonneg_ge)
  then show ?thesis by (simp add: upperBound_def Let_def)
qed

lemma filter_le_takeWhile:
  fixes t :: "'b :: linorder"
  shows "sorted (map f xs) \<Longrightarrow> filter (\<lambda>x. f x \<le> t) xs = takeWhile (\<lambda>x. f x \<le> t) xs"
proof (induction xs)
  case Nil
  then show ?case by simp
next
  case (Cons x xs)
  show ?case
  proof (cases "f x \<le> t")
    case True
    with Cons show ?thesis by simp
  next
    case False
    with Cons.prems have "\<forall>y\<in>set xs. \<not> f y \<le> t" by auto
    with False show ?thesis by (simp add: filter_empty_conv)
  qed
qed

lemma takeWhile_length_ge:
  assumes "k \<le> length xs" "\<forall>i<k. P (xs ! i)"
  shows "k \<le> length (takeWhile P xs)"
proof (rule ccontr)
  assume "\<not> k \<le> length (takeWhile P xs)"
  then have lt: "length (takeWhile P xs) < k" by simp
  with assms(1) have "length (takeWhile P xs) < length xs" by simp
  then have "\<not> P (xs ! length (takeWhile P xs))" by (rule nth_length_takeWhile)
  with lt assms(2) show False by blast
qed

lemma marketCandidates_sorted:
  "sorted (map starting_bid xs) \<Longrightarrow> sorted (map starting_bid (marketCandidates xs))"
  by (simp add: marketCandidates_def drop_map [symmetric] sorted_wrt_drop)

lemma filteredCandidates_takeWhile:
  assumes "sorted (map starting_bid xs)"
  shows "filteredCandidates xs =
    takeWhile (\<lambda>a. starting_bid a \<le> upperBound (map starting_bid (marketCandidates xs))) (marketCandidates xs)"
  unfolding filteredCandidates_def Let_def
  by (rule filter_le_takeWhile) (rule marketCandidates_sorted [OF assms])

lemma filteredCandidates_prefix:
  assumes srt: "sorted (map starting_bid xs)" and len: "2 \<le> length xs"
  defines "ps \<equiv> map starting_bid (marketCandidates xs)"
  shows "q3Index ps + 1 \<le> length (filteredCandidates xs)"
    and "filteredCandidates xs = take (length (filteredCandidates xs)) (marketCandidates xs)"
proof -
  let ?P = "\<lambda>a. starting_bid a \<le> upperBound ps"
  have sps: "sorted ps" unfolding ps_def by (rule marketCandidates_sorted [OF srt])
  have ne: "ps \<noteq> []" using len by (simp add: ps_def marketCandidates_def)
  have q3: "q3Index ps < length ps" using q_indices_in_range [OF ne] by simp
  have tw: "filteredCandidates xs = takeWhile ?P (marketCandidates xs)"
    unfolding ps_def by (rule filteredCandidates_takeWhile [OF srt])
  have "\<forall>i<q3Index ps + 1. ?P (marketCandidates xs ! i)"
  proof (intro allI impI)
    fix i assume i: "i < q3Index ps + 1"
    then have "ps ! i \<le> ps ! q3Index ps"
      using sps q3 by (simp add: sorted_iff_nth_mono)
    also have "\<dots> \<le> upperBound ps" by (rule upperBound_ge_q3 [OF sps ne])
    finally show "?P (marketCandidates xs ! i)"
      using i q3 by (simp add: ps_def)
  qed
  moreover have "q3Index ps + 1 \<le> length (marketCandidates xs)"
    using q3 by (simp add: ps_def)
  ultimately show "q3Index ps + 1 \<le> length (filteredCandidates xs)"
    unfolding tw by (intro takeWhile_length_ge) auto
  show "filteredCandidates xs = take (length (filteredCandidates xs)) (marketCandidates xs)"
    unfolding tw by (rule takeWhile_eq_take)
qed

lemma filteredCandidates_length_ge2:
  assumes "sorted (map starting_bid xs)" "3 \<le> length xs"
  shows "2 \<le> length (filteredCandidates xs)"
proof -
  have "2 \<le> length (marketCandidates xs)" using assms(2) by (simp add: marketCandidates_def)
  then have "4 \<le> length (marketCandidates xs) * 3" by simp
  then have "4 div 4 \<le> length (marketCandidates xs) * 3 div 4" by (rule div_le_mono)
  then have "2 \<le> q3Index (map starting_bid (marketCandidates xs)) + 1"
    by (simp add: q3Index_def)
  also have "\<dots> \<le> length (filteredCandidates xs)"
    using filteredCandidates_prefix(1) [of xs] assms by simp
  finally show ?thesis .
qed


lemma exit_sorted:
  assumes "sorted (map starting_bid xs)" "3 \<le> length xs"
  shows "findMarketPriceAuction_exit xs =
     (case wallStartIndex (filteredCandidates xs) 0 of
        Some w \<Rightarrow> (WallFound, Some (filteredCandidates xs ! w))
      | None \<Rightarrow> (NoJump, Some (filteredCandidates xs ! 0)))"
proof -
  have ne: "map starting_bid (marketCandidates xs) \<noteq> []"
    using assms(2) by (simp add: marketCandidates_def)
  show ?thesis
    using assms(2) q_indices_in_range [OF ne] filteredCandidates_length_ge2 [OF assms]
    by (simp add: findMarketPriceAuction_exit_def Let_def)
qed

lemma wallStartIndex_Some:
  "wallStartIndex fc i = Some w \<Longrightarrow>
     i < w \<and> w < length fc
     \<and> D 0 < starting_bid (fc ! (w - 1))
     \<and> GAP_THRESHOLD < fdiv (fsub (starting_bid (fc ! w)) (starting_bid (fc ! (w - 1)))) (starting_bid (fc ! (w - 1)))
     \<and> (\<forall>j. i \<le> j \<and> j < w - 1 \<longrightarrow>
            \<not> (D 0 < starting_bid (fc ! j)
               \<and> GAP_THRESHOLD < fdiv (fsub (starting_bid (fc ! (j + 1))) (starting_bid (fc ! j))) (starting_bid (fc ! j))))"
proof (induction fc i rule: wallStartIndex.induct)
  case (1 fc i)
  show ?case
  proof (cases "i + 1 < length fc")
    case False
    with "1.prems" show ?thesis by (simp add: wallStartIndex.simps [of fc i])
  next
    case inr: True
    let ?J = "D 0 < starting_bid (fc ! i)
        \<and> GAP_THRESHOLD < fdiv (fsub (starting_bid (fc ! (i + 1))) (starting_bid (fc ! i))) (starting_bid (fc ! i))"
    show ?thesis
    proof (cases ?J)
      case True
      with inr "1.prems" have "w = i + 1" by (simp add: wallStartIndex.simps [of fc i])
      with True inr show ?thesis by auto
    next
      case False
      with inr "1.prems" have rec: "wallStartIndex fc (i + 1) = Some w"
        by (auto simp add: wallStartIndex.simps [of fc i] Let_def split: if_splits)
      have ih: "i + 1 < w \<and> w < length fc
         \<and> D 0 < starting_bid (fc ! (w - 1))
         \<and> GAP_THRESHOLD < fdiv (fsub (starting_bid (fc ! w)) (starting_bid (fc ! (w - 1)))) (starting_bid (fc ! (w - 1)))
         \<and> (\<forall>j. i + 1 \<le> j \<and> j < w - 1 \<longrightarrow>
            \<not> (D 0 < starting_bid (fc ! j)
               \<and> GAP_THRESHOLD < fdiv (fsub (starting_bid (fc ! (j + 1))) (starting_bid (fc ! j))) (starting_bid (fc ! j))))"
        using "1.IH" [OF inr refl refl _ rec] False by blast
      have "\<not> (D 0 < starting_bid (fc ! j)
               \<and> GAP_THRESHOLD < fdiv (fsub (starting_bid (fc ! (j + 1))) (starting_bid (fc ! j))) (starting_bid (fc ! j)))"
        if "i \<le> j" "j < w - 1" for j
      proof (cases "j = i")
        case True
        with False show ?thesis by simp
      next
        case False
        with that have "i + 1 \<le> j" by simp
        with ih that show ?thesis by blast
      qed
      with ih show ?thesis by simp
    qed
  qed
qed


section \<open>The normalizer and markup\<close>

lemma decoration_plain: "isDecoration c \<Longrightarrow> c \<noteq> 0xA7 \<and> \<not> isColourCode c"
  unfolding isDecoration_def isWhiteSpace_def isColourCode_def
  by (auto simp add: word_le_nat_alt)

lemma section_not_code: "\<not> isColourCode 0xA7"
  by (simp add: isColourCode_def)

lemma markup_head_not_code:
  assumes "isMarkup (d # r)"
  shows "\<not> isColourCode d"
proof (cases "d = 0xA7")
  case True
  then show ?thesis using section_not_code by blast
next
  case False
  with assms have "isDecoration d" by (cases r) simp_all
  then show ?thesis using decoration_plain by blast
qed

lemma removeColourCodes_plain_Cons:
  "c \<noteq> 0xA7 \<Longrightarrow> removeColourCodes (c # x) = c # removeColourCodes x"
  by (cases x) simp_all

lemma removeColourCodes_not_code_Cons:
  "(x \<noteq> [] \<Longrightarrow> \<not> isColourCode (hd x)) \<Longrightarrow> removeColourCodes (c # x) = c # removeColourCodes x"
  by (cases x) simp_all

lemma removeColourCodes_markup_prefix:
  "isMarkup p \<Longrightarrow> removeColourCodes (p @ x) = removeColourCodes p @ removeColourCodes x"
proof (induction p rule: isMarkup.induct)
  case (1 c d rest)
  show ?case
  proof (cases "c = 0xA7 \<and> isColourCode d")
    case True
    with 1 show ?thesis by simp
  next
    case False
    with "1.prems" have dc: "isDecoration c" and m: "isMarkup (d # rest)" by auto
    have "removeColourCodes ((c # d # rest) @ x) = c # removeColourCodes ((d # rest) @ x)"
      and "removeColourCodes (c # d # rest) = c # removeColourCodes (d # rest)"
      using False by auto
    with "1.IH"(2) [OF False m] show ?thesis by simp
  qed
next
  case (2 c)
  then have "c \<noteq> 0xA7" using decoration_plain by auto
  then show ?case by (simp add: removeColourCodes_plain_Cons)
next
  case 3
  show ?case by simp
qed

lemma removeColourCodes_markup_decoration:
  "isMarkup p \<Longrightarrow> \<forall>c\<in>set (removeColourCodes p). isDecoration c"
  by (induction p rule: isMarkup.induct) (auto split: if_splits)

lemma removeColourCodes_markup_suffix:
  "isMarkup q \<Longrightarrow> removeColourCodes (s @ q) = removeColourCodes s @ removeColourCodes q"
proof (induction s rule: removeColourCodes.induct)
  case (1 c d rest)
  then show ?case by simp
next
  case (2 c)
  have "removeColourCodes (c # q) = c # removeColourCodes q"
  proof (rule removeColourCodes_not_code_Cons)
    assume "q \<noteq> []"
    then obtain d r where "q = d # r" by (cases q) auto
    with 2 show "\<not> isColourCode (hd q)" using markup_head_not_code by simp
  qed
  then show ?case by simp
next
  case 3
  show ?case by simp
qed

lemma stripDecorations_affixes:
  assumes p: "\<forall>c\<in>set p. isDecoration c" and q: "\<forall>c\<in>set q. isDecoration c"
  shows "stripDecorations (p @ t @ q) = stripDecorations t"
proof -
  have 1: "dropWhile isDecoration (p @ t @ q) = dropWhile isDecoration (t @ q)"
    using p by (simp add: dropWhile_append2)
  show ?thesis
  proof (cases "\<forall>c\<in>set t. isDecoration c")
    case True
    with q have a: "dropWhile isDecoration (t @ q) = []" and b: "dropWhile isDecoration t = []"
      by auto
    show ?thesis unfolding stripDecorations_def 1 a b by simp
  next
    case False
    then obtain x where "x \<in> set t" "\<not> isDecoration x" by blast
    then have "dropWhile isDecoration (t @ q) = dropWhile isDecoration t @ q"
      by (rule dropWhile_append1)
    moreover have "dropWhile isDecoration (rev q @ u) = dropWhile isDecoration u" for u
      by (rule dropWhile_append2) (use q in simp)
    ultimately show ?thesis unfolding stripDecorations_def 1 by (simp del: dropWhile_append)
  qed
qed

lemma normalize_affixes:
  assumes "isMarkup p" "isMarkup q"
  shows "normalizeAuctionName (p @ s @ q) = normalizeAuctionName s"
proof -
  have "removeColourCodes (p @ s @ q)
      = removeColourCodes p @ removeColourCodes s @ removeColourCodes q"
    using assms by (simp add: removeColourCodes_markup_prefix removeColourCodes_markup_suffix)
  then show ?thesis
    using stripDecorations_affixes [OF removeColourCodes_markup_decoration [OF assms(1)]
        removeColourCodes_markup_decoration [OF assms(2)]]
    by (simp add: normalizeAuctionName_def)
qed

lemma removeColourCodes_insert_code:
  assumes "isColourCode c"
    and "\<not> (a \<noteq> [] \<and> last a = 0xA7 \<and> b \<noteq> [] \<and> isColourCode (hd b))"
  shows "removeColourCodes (a @ [0xA7, c] @ b) = removeColourCodes (a @ b)"
  using assms(2)
proof (induction a rule: removeColourCodes.induct)
  case (1 x y rest)
  show ?case
  proof (cases "x = 0xA7 \<and> isColourCode y")
    case True
    from "1.prems" have "\<not> (rest \<noteq> [] \<and> last rest = 0xA7 \<and> b \<noteq> [] \<and> isColourCode (hd b))"
      by auto
    from "1.IH"(1) [OF True this] True show ?thesis by simp
  next
    case False
    from "1.prems" have "\<not> (y # rest \<noteq> [] \<and> last (y # rest) = 0xA7 \<and> b \<noteq> [] \<and> isColourCode (hd b))"
      by auto
    from "1.IH"(2) [OF False this] have "removeColourCodes (y # rest @ 0xA7 # c # b) = removeColourCodes (y # rest @ b)"
      by simp
    moreover have "removeColourCodes ((x # y # rest) @ [0xA7, c] @ b) = x # removeColourCodes (y # rest @ 0xA7 # c # b)"
      and "removeColourCodes ((x # y # rest) @ b) = x # removeColourCodes (y # rest @ b)"
      using False by auto
    ultimately show ?thesis by simp
  qed
next
  case (2 x)
  show ?case
  proof (cases "x = 0xA7")
    case False
    then show ?thesis using assms(1) by (simp add: removeColourCodes_plain_Cons)
  next
    case True
    with 2 have nb: "b \<noteq> [] \<Longrightarrow> \<not> isColourCode (hd b)" by simp
    have "removeColourCodes (x # b) = x # removeColourCodes b"
      by (rule removeColourCodes_not_code_Cons) (rule nb)
    moreover have "removeColourCodes (x # 0xA7 # c # b) = x # removeColourCodes b"
      using assms(1) by (simp add: section_not_code)
    ultimately show ?thesis by simp
  qed
next
  case 3
  show ?case using assms(1) by simp
qed

section \<open>The detectors and the crafting loop\<close>

lemma in_set_map_filter:
  "y \<in> set (List.map_filter f xs) \<longleftrightarrow> (\<exists>x\<in>set xs. f x = Some y)"
  by (induction xs) (auto simp add: List.map_filter_simps split: option.splits)

lemma map_of_groupPush:
  "map_of (groupPush groups n a) k
     = (if k = n then Some ((case map_of groups n of None \<Rightarrow> [] | Some g \<Rightarrow> g) @ [a])
        else map_of groups k)"
  by (induction groups) auto

lemma keys_groupPush:
  "fst ` set (groupPush groups n a) = insert n (fst ` set groups)"
proof (induction groups)
  case Nil
  show ?case by simp
next
  case (Cons g groups)
  obtain k auctions where g: "g = (k, auctions)" by (cases g)
  show ?case using Cons.IH by (cases "k = n") (simp_all add: g insert_commute)
qed

lemma distinct_groupPush:
  "distinct (map fst groups) \<Longrightarrow> distinct (map fst (groupPush groups n a))"
proof (induction groups)
  case Nil
  show ?case by simp
next
  case (Cons g groups)
  obtain k auctions where g: "g = (k, auctions)" by (cases g)
  from Cons.prems have d: "distinct (map fst groups)" and nk: "k \<notin> fst ` set groups"
    by (simp_all add: g)
  show ?case
  proof (cases "k = n")
    case True
    then show ?thesis using d nk by (simp add: g)
  next
    case False
    have "k \<notin> fst ` set (groupPush groups n a)"
      unfolding keys_groupPush using nk False by simp
    with Cons.IH [OF d] False show ?thesis by (simp add: g)
  qed
qed

lemma foldl_groupPush:
  "distinct (map fst (foldl (\<lambda>groups x. groupPush groups (key x) x) [] xs))
   \<and> (\<forall>k. map_of (foldl (\<lambda>groups x. groupPush groups (key x) x) [] xs) k
          = (if filter (\<lambda>x. key x = k) xs = [] then None
             else Some (filter (\<lambda>x. key x = k) xs)))"
proof (induction xs rule: rev_induct)
  case Nil
  show ?case by simp
next
  case (snoc x xs)
  let ?g = "foldl (\<lambda>groups x. groupPush groups (key x) x) [] xs"
  from snoc have d: "distinct (map fst ?g)"
    and m: "\<And>k. map_of ?g k = (if filter (\<lambda>x. key x = k) xs = [] then None
             else Some (filter (\<lambda>x. key x = k) xs))"
    by blast+
  have step: "foldl (\<lambda>groups x. groupPush groups (key x) x) [] (xs @ [x])
      = groupPush ?g (key x) x" by simp
  show ?case
    unfolding step
    by (intro conjI allI distinct_groupPush d) (simp add: map_of_groupPush m)
qed

lemma groupAuctions_iff:
  "(k, auctions) \<in> set (groupAuctions activeBins)
     \<longleftrightarrow> auctions = filter (\<lambda>a. normalizeAuctionName (item_name a) = k) activeBins
          \<and> auctions \<noteq> []"
proof -
  let ?g = "groupAuctions activeBins"
  from foldl_groupPush [of "\<lambda>a. normalizeAuctionName (item_name a)" activeBins]
  have d: "distinct (map fst ?g)"
    and m: "map_of ?g k
      = (if filter (\<lambda>a. normalizeAuctionName (item_name a) = k) activeBins = [] then None
         else Some (filter (\<lambda>a. normalizeAuctionName (item_name a) = k) activeBins))"
    unfolding groupAuctions_def by blast+
  have "(k, auctions) \<in> set ?g \<longleftrightarrow> map_of ?g k = Some auctions"
    using d by simp
  then show ?thesis unfolding m by auto
qed

lemma auctionFlipOfGroup_iff:
  "auctionFlipOfGroup itemName auctions = Some flip \<longleftrightarrow>
     2 \<le> length auctions
     \<and> MIN_PRICE \<le> starting_bid (sort_key starting_bid auctions ! 0)
     \<and> (\<exists>estimate. findMarketPriceAuction (sort_key starting_bid auctions) = Some estimate
          \<and> starting_bid (sort_key starting_bid auctions ! 0) < starting_bid estimate
          \<and> PROFIT_THRESHOLD
               < fsub (fsub (starting_bid estimate) (calculateAhTax (starting_bid estimate)))
                   (starting_bid (sort_key starting_bid auctions ! 0))
          \<and> flip = \<lparr>af_id = uuid (sort_key starting_bid auctions ! 0), af_itemName = itemName,
                     af_rarity = tier (sort_key starting_bid auctions ! 0),
                     af_lore = item_lore (sort_key starting_bid auctions ! 0),
                     lowestBin = starting_bid (sort_key starting_bid auctions ! 0),
                     af_marketPrice = starting_bid estimate,
                     af_profit = math_round
                       (fsub (fsub (starting_bid estimate) (calculateAhTax (starting_bid estimate)))
                          (starting_bid (sort_key starting_bid auctions ! 0)))\<rparr>)"
  unfolding auctionFlipOfGroup_def Let_def
  by (cases "findMarketPriceAuction (sort_key starting_bid auctions)") (auto simp add: not_less)

lemma auctionFlipOfGroup_lowestBin:
  "auctionFlipOfGroup itemName auctions = Some flip \<Longrightarrow>
     lowestBin flip = starting_bid (sort_key starting_bid auctions ! 0)"
  unfolding auctionFlipOfGroup_def Let_def
  by (auto split: if_splits option.splits)

lemma sort_key_head_least:
  assumes "a \<in> set xs"
  shows "f (sort_key f xs ! 0) \<le> f a"
proof -
  let ?s = "sort_key f xs"
  from assms have "a \<in> set ?s" by simp
  then obtain k where k: "k < length ?s" "a = ?s ! k" by (metis in_set_conv_nth)
  have "sorted (map f ?s)" by simp
  then have "map f ?s ! 0 \<le> map f ?s ! k"
    using k by (intro sorted_nth_mono) simp_all
  moreover have "0 < length ?s" using k by auto
  ultimately show ?thesis using k by simp
qed

lemma exceeds_exact:
  assumes "D c < D x" and "rnd64 c = c"
  shows "c < x"
proof (rule ccontr)
  assume "\<not> c < x"
  then have "x \<le> c" by simp
  from rnd64_mono [OF this] assms show False by (simp add: less_double_def)
qed

lemma fsub_exceeds_100:
  assumes "D 100 < fsub b a"
  shows "100 < val b - val a"
    and "\<bar>val (fsub b a) - (val b - val a)\<bar> \<le> (val b - val a) / 9007199254740992"
proof -
  have "D 100 < D (val b - val a)" using assms by (simp add: fsub_def)
  then show x: "100 < val b - val a" by (rule exceeds_exact) simp
  have "(2 :: rat) powi (- 1022) \<le> 2 powi 0"
    by (rule power_int_increasing) simp_all
  then have "(2 :: rat) powi (- 1022) \<le> val b - val a" using x by simp
  from rnd64_error [OF this]
  show "\<bar>val (fsub b a) - (val b - val a)\<bar> \<le> (val b - val a) / 9007199254740992"
    by (simp add: fsub_def)
qed

lemma bazaarFlipOfProduct_iff:
  "bazaarFlipOfProduct js (productId, product) = Some flip \<longleftrightarrow>
     (\<exists>status. quick_status product = Some status
        \<and> D 0 < sellPrice status \<and> D 0 < buyPrice status
        \<and> D 100 < fsub (buyPrice status) (sellPrice status)
        \<and> D 100 < buyMovingWeek status
        \<and> flip = \<lparr>bf_id = productId, bf_itemName = formatItemName js (product_id product),
                   bf_buyPrice = sellPrice status, bf_sellPrice = buyPrice status,
                   bf_profit = fsub (buyPrice status) (sellPrice status),
                   bf_buyVolume = buyMovingWeek status,
                   bf_sellVolume = sellMovingWeek status\<rparr>)"
  unfolding bazaarFlipOfProduct_def Let_def
  by (cases "quick_status product") auto

lemma priceIngredients_missing:
  "\<exists>i\<in>set rs. bazaarPrices (ingredientId i) = None \<Longrightarrow>
     fst (priceIngredients bazaarPrices rs acc) = False"
proof (induction rs arbitrary: acc)
  case Nil
  then show ?case by simp
next
  case (Cons r rs)
  obtain c d where acc: "acc = (c, d)" by (cases acc)
  show ?case
  proof (cases "bazaarPrices (ingredientId r)")
    case None
    then show ?thesis by (simp add: acc)
  next
    case (Some info)
    with Cons.prems have "\<exists>i\<in>set rs. bazaarPrices (ingredientId i) = None" by auto
    from Cons.IH [OF this] Some show ?thesis by (simp add: acc)
  qed
qed

lemma priceIngredients_quoted:
  "\<forall>i\<in>set rs. bazaarPrices (ingredientId i) \<noteq> None \<Longrightarrow>
     priceIngredients bazaarPrices rs (c, d)
       = (True,
          foldl (\<lambda>craftCost i. fadd craftCost
                   (fmul (pi_price (the (bazaarPrices (ingredientId i)))) (quantity i))) c rs,
          d @ map (\<lambda>i. \<lparr>ing_id = ingredientId i,
                         ing_name = pi_name (the (bazaarPrices (ingredientId i))),
                         ing_quantity = quantity i\<rparr>) rs)"
proof (induction rs arbitrary: c d)
  case Nil
  show ?case by simp
next
  case (Cons r rs)
  from Cons.prems obtain info where info: "bazaarPrices (ingredientId r) = Some info" by auto
  from Cons.prems have "\<forall>i\<in>set rs. bazaarPrices (ingredientId i) \<noteq> None" by simp
  from Cons.IH [OF this] info show ?case by simp
qed

lemma rnd64_whole:
  assumes "x \<in> \<nat>" and "x < 9007199254740992"
  shows "rnd64 x = x"
proof -
  from assms(1) obtain n :: nat where n: "x = of_nat n" by (auto elim: Nats_cases)
  with assms(2) have "(of_nat n :: rat) < of_nat 9007199254740992" by simp
  then have "n < 9007199254740992" unfolding of_nat_less_iff .
  then have "\<bar>int n\<bar> < 9007199254740992" by simp
  from rnd64_of_int [OF this] show ?thesis by (simp add: n)
qed

lemma whole_cost_exact:
  assumes "\<forall>i\<in>set rs. val (price i) \<in> \<nat> \<and> val (quantity i) \<in> \<nat>"
    and "val c \<in> \<nat>"
    and "val c + (\<Sum>i\<leftarrow>rs. val (price i) * val (quantity i)) < 9007199254740992"
  shows "val (foldl (\<lambda>craftCost i. fadd craftCost (fmul (price i) (quantity i))) c rs)
     = val c + (\<Sum>i\<leftarrow>rs. val (price i) * val (quantity i))"
  using assms
proof (induction rs arbitrary: c)
  case Nil
  show ?case by simp
next
  case (Cons r rs)
  let ?p = "val (price r) * val (quantity r)"
  let ?rest = "\<Sum>i\<leftarrow>rs. val (price i) * val (quantity i)"
  have pn: "?p \<in> \<nat>" using Cons.prems(1) by (simp add: Nats_mult)
  have restn: "?rest \<in> \<nat>"
  proof -
    have "\<forall>i\<in>set rs. val (price i) * val (quantity i) \<in> \<nat>"
      using Cons.prems(1) by (simp add: Nats_mult)
    then show ?thesis by (induction rs) (simp_all add: Nats_add)
  qed
  have nn: "0 \<le> ?p" "0 \<le> ?rest" "0 \<le> val c"
    using pn restn Cons.prems(2) by (auto elim: Nats_cases)
  have tot: "val c + ?p + ?rest < 9007199254740992" using Cons.prems(3) by (simp add: add.assoc)
  have "?p < 9007199254740992" using tot nn by linarith
  from rnd64_whole [OF pn this] have m: "val (fmul (price r) (quantity r)) = ?p"
    by (simp add: fmul_def)
  have sn: "val c + ?p \<in> \<nat>" using Cons.prems(2) pn by (simp add: Nats_add)
  have "val c + ?p < 9007199254740992" using tot nn by linarith
  from rnd64_whole [OF sn this] have a: "val (fadd c (fmul (price r) (quantity r))) = val c + ?p"
    by (simp add: fadd_def m)
  let ?c' = "fadd c (fmul (price r) (quantity r))"
  have "val (foldl (\<lambda>craftCost i. fadd craftCost (fmul (price i) (quantity i))) ?c' rs)
     = val ?c' + ?rest"
  proof (rule Cons.IH)
    show "\<forall>i\<in>set rs. val (price i) \<in> \<nat> \<and> val (quantity i) \<in> \<nat>" using Cons.prems(1) by simp
    show "val ?c' \<in> \<nat>" using sn a by simp
    show "val ?c' + ?rest < 9007199254740992" using tot a by simp
  qed
  then show ?case by (simp add: a add.assoc)
qed

lemma craftLoop_progressLog:
  "progressLog (craftLoop bazaarPrices replies itemCount items st)
     = progressLog st
       @ map (progressValue itemCount)
           [processedCount st + 1 ..< processedCount st + 1 + length items]"
proof (induction items arbitrary: st)
  case Nil
  show ?case by simp
next
  case (Cons item rest)
  let ?p = "processedCount st"
  let ?st2 = "st\<lparr>processedCount := ?p + 1,
                 progressLog := progressLog st @ [progressValue itemCount (?p + 1)]\<rparr>"
  let ?flip = "craftingFlipOfItem bazaarPrices
                 (analyzeCraftingRecipe (replies ?p (ifa_name item))) item"
  let ?st3 = "case ?flip of None \<Rightarrow> ?st2
              | Some flip \<Rightarrow> ?st2\<lparr>craftingFlips := craftingFlips ?st2 @ [flip]\<rparr>"
  have step: "craftLoop bazaarPrices replies itemCount (item # rest) st
      = craftLoop bazaarPrices replies itemCount rest ?st3"
    by (cases ?flip) (simp_all add: Let_def progressValue_def)
  have cnt: "processedCount ?st3 = ?p + 1" by (simp split: option.split)
  have log: "progressLog ?st3 = progressLog st @ [progressValue itemCount (?p + 1)]"
    by (simp split: option.split)
  have upt: "[?p + 1 ..< ?p + 1 + length (item # rest)]
      = (?p + 1) # [?p + 1 + 1 ..< ?p + 1 + 1 + length rest]"
    by (simp add: upt_conv_Cons del: upt_Suc)
  show ?case
    unfolding step Cons.IH [of ?st3] cnt log upt by (simp del: upt_Suc)
qed

lemma fetchCraftingFlips_progress:
  assumes "ok response" and "success response"
  shows "fst (fetchCraftingFlips js response replies items)
     = map (progressValue (length items)) [1 ..< 1 + length items]"
  using assms
  by (simp add: fetchCraftingFlips_def fetchBazaarPrices_def Let_def craftLoop_progressLog del: upt_Suc)

lemma craftLoop_craftingFlips:
  "craftingFlips (craftLoop bazaarPrices replies itemCount items st)
     = craftingFlips st
       @ List.map_filter
           (\<lambda>(k, item). craftingFlipOfItem bazaarPrices
                            (analyzeCraftingRecipe (replies k (ifa_name item))) item)
           (zip [processedCount st ..< processedCount st + length items] items)"
proof (induction items arbitrary: st)
  case Nil
  show ?case by simp
next
  case (Cons item rest)
  let ?p = "processedCount st"
  let ?st2 = "st\<lparr>processedCount := ?p + 1,
                 progressLog := progressLog st @ [progressValue itemCount (?p + 1)]\<rparr>"
  let ?flip = "craftingFlipOfItem bazaarPrices
                 (analyzeCraftingRecipe (replies ?p (ifa_name item))) item"
  let ?st3 = "case ?flip of None \<Rightarrow> ?st2
              | Some flip \<Rightarrow> ?st2\<lparr>craftingFlips := craftingFlips ?st2 @ [flip]\<rparr>"
  have step: "craftLoop bazaarPrices replies itemCount (item # rest) st
      = craftLoop bazaarPrices replies itemCount rest ?st3"
    by (cases ?flip) (simp_all add: Let_def)
  have cnt: "processedCount ?st3 = ?p + 1" by (simp split: option.split)
  have fl: "craftingFlips ?st3 = craftingFlips st @ (case ?flip of None \<Rightarrow> [] | Some flip \<Rightarrow> [flip])"
    by (simp split: option.split)
  have upt: "[?p ..< ?p + length (item # rest)] = ?p # [?p + 1 ..< ?p + 1 + length rest]"
    by (simp add: upt_conv_Cons del: upt_Suc)
  show ?case
    unfolding step Cons.IH [of ?st3] cnt fl upt
    by (simp del: upt_Suc split: option.split)
qed

lemma fetchCraftingFlips_flips:
  assumes "fetchBazaarPrices js response = Inr bazaarPrices"
  shows "snd (fetchCraftingFlips js response replies items)
     = Inr (List.map_filter
           (\<lambda>(k, item). craftingFlipOfItem bazaarPrices
                            (analyzeCraftingRecipe (replies k (ifa_name item))) item)
           (zip [0 ..< length items] items))"
  using assms by (simp add: fetchCraftingFlips_def Let_def craftLoop_craftingFlips del: upt_Suc)

lemma rnd64_of_nat:
  assumes "n < 9007199254740992"
  shows "rnd64 (of_nat n) = of_nat n"
proof -
  from assms have "\<bar>int n\<bar> < 9007199254740992" by simp
  from rnd64_of_int [OF this] show ?thesis by simp
qed

lemma math_round_mono: "a \<le> b \<Longrightarrow> math_round a \<le> math_round b"
  unfolding math_round_def less_eq_double_def val_D
  by (intro rnd64_mono of_int_le_iff [THEN iffD2] round_mono)

lemma progress_mono:
  assumes "j \<le> k"
  shows "progressValue n j \<le> progressValue n k"
proof -
  have "(of_nat j :: rat) \<le> of_nat k" using assms by simp
  then have "val (D (of_nat j)) \<le> val (D (of_nat k))" by (simp add: rnd64_mono)
  moreover have "0 \<le> val (D (of_nat n))" by (simp add: rnd64_nonneg)
  ultimately have "val (D (of_nat j)) / val (D (of_nat n)) \<le> val (D (of_nat k)) / val (D (of_nat n))"
    by (rule divide_right_mono)
  then have "val (fdiv (D (of_nat j)) (D (of_nat n))) \<le> val (fdiv (D (of_nat k)) (D (of_nat n)))"
    by (simp add: fdiv_def rnd64_mono)
  then have "val (fdiv (D (of_nat j)) (D (of_nat n))) * val (D 100)
      \<le> val (fdiv (D (of_nat k)) (D (of_nat n))) * val (D 100)"
    by (intro mult_right_mono) simp_all
  then have "fmul (fdiv (D (of_nat j)) (D (of_nat n))) (D 100)
      \<le> fmul (fdiv (D (of_nat k)) (D (of_nat n))) (D 100)"
    unfolding fmul_def less_eq_double_def val_D by (rule rnd64_mono)
  then show ?thesis unfolding progressValue_def by (rule math_round_mono)
qed

lemma progress_last:
  assumes "1 \<le> n"
  shows "progressValue n n = D 100"
proof -
  have "(1 :: rat) \<le> of_nat n" using assms by simp
  from rnd64_mono [OF this] have "0 < val (D (of_nat n))" by simp
  then have "fdiv (D (of_nat n)) (D (of_nat n)) = D 1" by (simp add: fdiv_def)
  then show ?thesis by (simp add: progressValue_def fmul_def math_round_def)
qed

lemma progress_exact:
  assumes "k \<le> n" and "n < 9007199254740992"
  shows "val (progressValue n k) = of_int (round (rnd64 (rnd64 (of_nat k / of_nat n) * 100)))"
    and "val (progressValue n k) \<le> 100"
proof -
  let ?q = "rnd64 (of_nat k / of_nat n)"
  let ?x = "rnd64 (?q * 100)"
  have k: "k < 9007199254740992" using assms by simp
  have v: "val (fmul (fdiv (D (of_nat k)) (D (of_nat n))) (D 100)) = ?x"
    by (simp add: fmul_def fdiv_def rnd64_of_nat [OF k] rnd64_of_nat [OF assms(2)])
  have "(of_nat k :: rat) / of_nat n \<le> 1"
    using assms(1) by (cases "n = 0") (simp_all add: divide_le_eq)
  from rnd64_mono [OF this] have q1: "?q \<le> 1" by simp
  have "(0 :: rat) \<le> of_nat k / of_nat n" by simp
  from rnd64_mono [OF this] have q0: "0 \<le> ?q" by simp
  have "?q * 100 \<le> 100" using q1 by simp
  from rnd64_mono [OF this] have x1: "?x \<le> 100" by simp
  have "0 \<le> ?q * 100" using q0 by simp
  from rnd64_mono [OF this] have x0: "0 \<le> ?x" by simp
  from round_mono [OF x1] have r1: "round ?x \<le> 100" by simp
  from round_mono [OF x0] have r0: "0 \<le> round ?x" by simp
  have "\<bar>round ?x\<bar> < 9007199254740992" using r0 r1 by simp
  from rnd64_of_int [OF this]
  show e: "val (progressValue n k) = of_int (round ?x)"
    by (simp add: progressValue_def math_round_def v)
  show "val (progressValue n k) \<le> 100" unfolding e using r1 by simp
qed

lemma progress_small:
  assumes "n < 200" and "k < n"
  shows "progressValue n k < D 100"
proof -
  have n: "n < 9007199254740992" and kn: "k \<le> n" using assms by simp_all
  have "199 * k \<le> 198 * n" using assms by simp
  then have "(of_nat (199 * k) :: rat) \<le> of_nat (198 * n)" unfolding of_nat_le_iff .
  then have "(of_nat k :: rat) * 199 \<le> 198 * of_nat n" by (simp add: mult.commute)
  moreover have "(0 :: rat) < of_nat n" using assms by simp
  ultimately have "(of_nat k :: rat) / of_nat n \<le> 198 / 199"
    by (simp add: field_simps)
  from rnd64_mono [OF this]
  have "rnd64 (of_nat k / of_nat n) * 100 \<le> rnd64 (198 / 199) * 100" by simp
  from round_mono [OF rnd64_mono [OF this]]
  have "round (rnd64 (rnd64 (of_nat k / of_nat n) * 100)) \<le> round (rnd64 (rnd64 (198 / 199) * 100))" .
  also have "\<dots> = 99" by code_simp
  finally have "round (rnd64 (rnd64 (of_nat k / of_nat n) * 100)) \<le> 99" .
  then have "val (progressValue n k) \<le> 99"
    unfolding progress_exact(1) [OF kn n] by simp
  then show ?thesis by (simp add: less_double_def)
qed

lemma progress_200_199: "progressValue 200 199 = D 100"
proof -
  have "round (rnd64 (rnd64 (199 / 200) * 100)) = 100" by code_simp
  then have "val (progressValue 200 199) = 100"
    using progress_exact(1) [of 199 200] by simp
  then show ?thesis by (simp add: double_eq_iff)
qed


lemma fetchCraftingFlips_failed:
  assumes "\<not> (ok response \<and> success response)"
  shows "fst (fetchCraftingFlips js response replies items) = []"
    and "\<exists>e. snd (fetchCraftingFlips js response replies items) = Inl e"
  using assms by (auto simp add: fetchCraftingFlips_def fetchBazaarPrices_def)

section \<open>Properties\<close>

text \<open>
  C3. The tax is the price times 0.01 below 1,000,000 and the price times 0.02 from
  1,000,000 on, the boundary included, each a single multiplication of numbers whose
  result is not rounded to an integer: the tax on 1,000,000 is 20,000 and the tax on
  999,999 is the double nearest to 9,999.99. For a price of at least 1 the tax is within a
  relative \<open>2 powi (- 51)\<close> of the exact 1% or 2% of the price.
\<close>

theorem calculateAhTax_tiers:
  "calculateAhTax p = (if val p < 1000000 then fmul p (D (1 / 100)) else fmul p (D (2 / 100)))
   \<and> calculateAhTax (D 1000000) = D 20000
   \<and> calculateAhTax (D 999999) = D (999999 / 100)
   \<and> (1 \<le> val p \<longrightarrow>
        \<bar>val (calculateAhTax p) - (if val p < 1000000 then 1 / 100 else 2 / 100) * val p\<bar>
          \<le> (if val p < 1000000 then 1 / 100 else 2 / 100) * val p / 2251799813685248)"
proof (intro conjI impI)
  show eq: "calculateAhTax p
      = (if val p < 1000000 then fmul p (D (1 / 100)) else fmul p (D (2 / 100)))"
    by (simp add: calculateAhTax_def less_eq_double_def not_le)
  have "rnd64 (1000000 * rnd64 (2 / 100)) = 20000" by code_simp
  then show "calculateAhTax (D 1000000) = D 20000"
    by (simp add: calculateAhTax_def double_eval)
  have "rnd64 (999999 * rnd64 (1 / 100)) = rnd64 (999999 / 100)" by code_simp
  then show "calculateAhTax (D 999999) = D (999999 / 100)"
    by (simp add: calculateAhTax_def double_eval)
  assume p1: "1 \<le> val p"
  define r :: rat where "r = (if val p < 1000000 then 1 / 100 else 2 / 100)"
  have r: "1 / 100 \<le> r" "r \<le> 2 / 100" by (simp_all add: r_def)
  have tiny: "(2 :: rat) powi (- 1022) \<le> 1 / 256"
  proof -
    have "(2 :: rat) powi (- 1022) \<le> 2 powi (- 8)" by (simp add: two_powi_le_iff)
    then show ?thesis by (simp add: power_int_minus)
  qed
  have "\<bar>rnd64 r - r\<bar> \<le> r / 9007199254740992"
    using tiny r by (intro rnd64_error) linarith
  then have c: "r - r / 9007199254740992 \<le> rnd64 r" "rnd64 r \<le> r + r / 9007199254740992"
    by linarith+
  have c_lo: "1 / 200 \<le> rnd64 r" using c(1) r by linarith
  have c_hi: "rnd64 r \<le> 2 * r" using c(2) r by linarith
  have pc_lo: "1 / 200 \<le> val p * rnd64 r"
  proof -
    have "1 * (1 / 200) \<le> val p * rnd64 r" using p1 c_lo by (intro mult_mono) simp_all
    then show ?thesis by simp
  qed
  have "\<bar>rnd64 (val p * rnd64 r) - val p * rnd64 r\<bar> \<le> val p * rnd64 r / 9007199254740992"
    using tiny pc_lo by (intro rnd64_error) linarith
  also have "\<dots> \<le> val p * (2 * r) / 9007199254740992"
    using p1 c_hi by (intro divide_right_mono mult_left_mono) simp_all
  finally have e1: "\<bar>rnd64 (val p * rnd64 r) - val p * rnd64 r\<bar>
      \<le> val p * (2 * r) / 9007199254740992" .
  have "\<bar>val p * rnd64 r - val p * r\<bar> = val p * \<bar>rnd64 r - r\<bar>"
    using p1 by (simp add: abs_mult flip: right_diff_distrib)
  also have "\<dots> \<le> val p * (r / 9007199254740992)"
    using p1 \<open>\<bar>rnd64 r - r\<bar> \<le> r / 9007199254740992\<close> by (intro mult_left_mono) simp_all
  finally have e2: "\<bar>val p * rnd64 r - val p * r\<bar> \<le> val p * (r / 9007199254740992)" .
  have "\<bar>rnd64 (val p * rnd64 r) - r * val p\<bar>
      \<le> \<bar>rnd64 (val p * rnd64 r) - val p * rnd64 r\<bar> + \<bar>val p * rnd64 r - val p * r\<bar>"
    by (simp add: mult.commute)
  also have "\<dots> \<le> val p * (2 * r) / 9007199254740992 + val p * (r / 9007199254740992)"
    using e1 e2 by linarith
  also have "\<dots> \<le> r * val p / 2251799813685248"
  proof -
    have "0 \<le> r * val p" using r p1 by simp
    then show ?thesis by (simp add: field_simps)
  qed
  finally have "\<bar>rnd64 (val p * rnd64 r) - r * val p\<bar> \<le> r * val p / 2251799813685248" .
  moreover have "val (calculateAhTax p) = rnd64 (val p * rnd64 r)"
    by (simp add: eq r_def fmul_def)
  ultimately show "\<bar>val (calculateAhTax p) - (if val p < 1000000 then 1 / 100 else 2 / 100) * val p\<bar>
          \<le> (if val p < 1000000 then 1 / 100 else 2 / 100) * val p / 2251799813685248"
    by (simp only: r_def)
qed

theorem calculateAhTax_tiers_witness:
  "1 \<le> val (D 35)
   \<and> calculateAhTax (D 35) = fmul (D 35) (D (1 / 100))
   \<and> val (calculateAhTax (D 35)) = 6305039478318695 / 18014398509481984
   \<and> \<bar>val (calculateAhTax (D 35)) - 1 / 100 * val (D 35)\<bar>
       \<le> 1 / 100 * val (D 35) / 2251799813685248"
proof -
  have h: "1 \<le> val (D 35)" by simp
  have lt: "val (D 35) < 1000000" by simp
  have "rnd64 (35 * rnd64 (1 / 100)) = 6305039478318695 / 18014398509481984" by code_simp
  then have v: "val (calculateAhTax (D 35)) = 6305039478318695 / 18014398509481984"
    by (simp add: calculateAhTax_def double_eval)
  note t = calculateAhTax_tiers [of "D 35"]
  from t have "calculateAhTax (D 35)
      = (if val (D 35) < 1000000 then fmul (D 35) (D (1 / 100)) else fmul (D 35) (D (2 / 100)))"
    by (rule conjunct1)
  then have a: "calculateAhTax (D 35) = fmul (D 35) (D (1 / 100))"
    by (simp only: lt if_True)
  from t h have "\<bar>val (calculateAhTax (D 35))
        - (if val (D 35) < 1000000 then 1 / 100 else 2 / 100) * val (D 35)\<bar>
      \<le> (if val (D 35) < 1000000 then 1 / 100 else 2 / 100) * val (D 35) / 2251799813685248"
    by blast
  then have b: "\<bar>val (calculateAhTax (D 35)) - 1 / 100 * val (D 35)\<bar>
       \<le> 1 / 100 * val (D 35) / 2251799813685248"
    by (simp only: lt if_True)
  from a b
  show ?thesis using h v by blast
qed

text \<open>
  C4. On a group of fewer than 3 auctions the estimator returns the second-cheapest
  auction when there is one and nothing otherwise: the group priced [100, 150] yields the
  auction priced 150, and a group of one auction yields none.
\<close>

theorem findMarketPriceAuction_few:
  "length xs < 3 \<Longrightarrow>
     findMarketPriceAuction xs = (if 2 \<le> length xs then Some (xs ! 1) else None)"
  by (simp add: findMarketPriceAuction_def findMarketPriceAuction_exit_def elem_or_null_def)

theorem findMarketPriceAuction_few_witness:
  "length [auctionAt 100, auctionAt 150] < 3
   \<and> findMarketPriceAuction [auctionAt 100, auctionAt 150] = Some (auctionAt 150)
   \<and> length [auctionAt 100] < 3
   \<and> findMarketPriceAuction [auctionAt 100] = None"
  using findMarketPriceAuction_few [of "[auctionAt 100, auctionAt 150]"]
    findMarketPriceAuction_few [of "[auctionAt 100]"]
  by simp

text \<open>
  C10. On a group of at least 3 auctions sorted ascending by price, with \<open>n \<ge> 2\<close>
  candidates: both quartile indices \<open>n div 4\<close> and \<open>3n div 4\<close> are below \<open>n\<close>, the IQR filter
  keeps at least the \<open>3n div 4 + 1\<close> cheapest candidates, which are at least 2, and so the
  estimator leaves neither through the "not enough data for IQR" return nor through the
  "fewer than 2 after trimming" return.
\<close>

theorem iqr_fallbacks_unreachable:
  assumes "sorted (map starting_bid xs)" and "3 \<le> length xs"
  shows "let n = length (marketCandidates xs) in
           2 \<le> n \<and> n div 4 < n \<and> n * 3 div 4 < n
           \<and> n * 3 div 4 + 1 \<le> length (filteredCandidates xs)
           \<and> take (n * 3 div 4 + 1) (filteredCandidates xs) = take (n * 3 div 4 + 1) (marketCandidates xs)
           \<and> 2 \<le> n * 3 div 4 + 1
           \<and> fst (findMarketPriceAuction_exit xs) \<noteq> NotEnoughForIQR
           \<and> fst (findMarketPriceAuction_exit xs) \<noteq> FilterTooAggressive"
proof -
  let ?n = "length (marketCandidates xs)"
  let ?k = "?n * 3 div 4 + 1"
  have n2: "2 \<le> ?n" using assms(2) by (simp add: marketCandidates_def)
  then have "0 < ?n" by linarith
  from quartile_bounds(1,2) [OF this] have idx: "?n div 4 < ?n \<and> ?n * 3 div 4 < ?n" by simp
  have "4 \<le> ?n * 3" using n2 by simp
  then have "4 div 4 \<le> ?n * 3 div 4" by (rule div_le_mono)
  then have k2: "2 \<le> ?k" by simp
  have len2: "2 \<le> length xs" using assms(2) by simp
  have k: "?k \<le> length (filteredCandidates xs)"
    using filteredCandidates_prefix(1) [OF assms(1) len2] by (simp add: q3Index_def)
  have "take ?k (filteredCandidates xs)
      = take ?k (take (length (filteredCandidates xs)) (marketCandidates xs))"
    using filteredCandidates_prefix(2) [OF assms(1) len2] by simp
  also have "\<dots> = take ?k (marketCandidates xs)"
    using k by (simp add: min_absorb1)
  finally have tk: "take ?k (filteredCandidates xs) = take ?k (marketCandidates xs)" .
  have ex: "fst (findMarketPriceAuction_exit xs) \<noteq> NotEnoughForIQR
      \<and> fst (findMarketPriceAuction_exit xs) \<noteq> FilterTooAggressive"
    by (simp add: exit_sorted [OF assms] split: option.split)
  from n2 idx k tk k2 ex show ?thesis by (simp add: Let_def)
qed

theorem iqr_fallbacks_unreachable_witness:
  "sorted (map starting_bid (map auctionAt [100, 105, 110, 500]))
   \<and> 3 \<le> length (map auctionAt [100, 105, 110, 500])
   \<and> fst (findMarketPriceAuction_exit (map auctionAt [100, 105, 110, 500])) \<noteq> NotEnoughForIQR
   \<and> fst (findMarketPriceAuction_exit (map auctionAt [100, 105, 110, 500])) \<noteq> FilterTooAggressive
   \<and> 3 \<le> length (filteredCandidates (map auctionAt [100, 105, 110, 500]))"
  using iqr_fallbacks_unreachable [of "map auctionAt [100, 105, 110, 500]"]
  by (simp add: auctionAt_def marketCandidates_def Let_def double_eval)

text \<open>
  C5. On a group of at least 3 auctions sorted ascending by price, the estimate is a member
  of the trimmed candidate list, its price is at least the price of every candidate before
  it, and it is strictly below the price of every candidate that the trimming excluded.
\<close>

theorem estimate_in_trimmed:
  assumes "3 \<le> length xs" and "sorted (map starting_bid xs)"
  shows "\<exists>r k. findMarketPriceAuction xs = Some r
           \<and> k < length (filteredCandidates xs) \<and> r = filteredCandidates xs ! k
           \<and> r = marketCandidates xs ! k
           \<and> (\<forall>j<k. starting_bid (marketCandidates xs ! j) \<le> starting_bid r)
           \<and> (\<forall>a\<in>set (marketCandidates xs).
                 a \<notin> set (filteredCandidates xs) \<longrightarrow> starting_bid r < starting_bid a)"
proof -
  let ?fc = "filteredCandidates xs" and ?mc = "marketCandidates xs"
  let ?ub = "upperBound (map starting_bid ?mc)"
  have len: "2 \<le> length ?fc" by (rule filteredCandidates_length_ge2 [OF assms(2,1)])
  have "\<exists>k. k < length ?fc \<and> findMarketPriceAuction xs = Some (?fc ! k)"
  proof (cases "wallStartIndex ?fc 0")
    case None
    then have "findMarketPriceAuction xs = Some (?fc ! 0)"
      by (simp add: findMarketPriceAuction_def exit_sorted [OF assms(2,1)])
    moreover have "0 < length ?fc" using len by linarith
    ultimately show ?thesis by blast
  next
    case (Some w)
    then have "findMarketPriceAuction xs = Some (?fc ! w)"
      by (simp add: findMarketPriceAuction_def exit_sorted [OF assms(2,1)])
    with wallStartIndex_Some [OF Some] show ?thesis by blast
  qed
  then obtain k where k: "k < length ?fc" and res: "findMarketPriceAuction xs = Some (?fc ! k)"
    by blast
  have pre: "?fc = take (length ?fc) ?mc"
    using filteredCandidates_prefix(2) [OF assms(2)] assms(1) by simp
  have lenle: "length ?fc \<le> length ?mc"
    by (simp add: filteredCandidates_def Let_def)
  have nth_eq: "?fc ! j = ?mc ! j" if "j < length ?fc" for j
    using that by (subst pre) simp
  have srt: "sorted (map starting_bid ?mc)" by (rule marketCandidates_sorted [OF assms(2)])
  have before: "starting_bid (?mc ! j) \<le> starting_bid (?fc ! k)" if "j < k" for j
  proof -
    have "map starting_bid ?mc ! j \<le> map starting_bid ?mc ! k"
      using srt that k lenle by (simp add: sorted_iff_nth_mono del: nth_map)
    then show ?thesis using that k lenle by (simp add: nth_eq)
  qed
  have "?fc ! k \<in> set ?fc" using k by simp
  then have le_ub: "starting_bid (?fc ! k) \<le> ?ub"
    by (simp add: filteredCandidates_def Let_def)
  have excl: "starting_bid (?fc ! k) < starting_bid a" if "a \<in> set ?mc" "a \<notin> set ?fc" for a
  proof -
    from that have "\<not> starting_bid a \<le> ?ub" by (simp add: filteredCandidates_def Let_def)
    with le_ub show ?thesis by simp
  qed
  from res k nth_eq [OF k] before excl show ?thesis by blast
qed

theorem estimate_in_trimmed_witness:
  "let xs = map auctionAt [100, 102, 104, 106, 108, 5000] in
     3 \<le> length xs \<and> sorted (map starting_bid xs)
     \<and> filteredCandidates xs = map auctionAt [102, 104, 106, 108]
     \<and> findMarketPriceAuction xs = Some (auctionAt 102)
     \<and> (\<exists>r k. findMarketPriceAuction xs = Some r
           \<and> k < length (filteredCandidates xs) \<and> r = filteredCandidates xs ! k
           \<and> r = marketCandidates xs ! k
           \<and> (\<forall>j<k. starting_bid (marketCandidates xs ! j) \<le> starting_bid r)
           \<and> (\<forall>a\<in>set (marketCandidates xs).
                 a \<notin> set (filteredCandidates xs) \<longrightarrow> starting_bid r < starting_bid a))"
proof -
  let ?xs = "map auctionAt [100, 102, 104, 106, 108, 5000]"
  have h1: "3 \<le> length ?xs" by simp
  have h2: "sorted (map starting_bid ?xs)" by (simp add: auctionAt_def double_eval)
  have e1: "filteredCandidates ?xs = map auctionAt [102, 104, 106, 108]"
    by (simp add: filteredCandidates_def marketCandidates_def upperBound_def q1Index_def
        q3Index_def auctionAt_def double_eval)
  have g: "rnd64 (1 / 51) \<le> rnd64 (8 / 100)" "rnd64 (1 / 52) \<le> rnd64 (8 / 100)"
    "rnd64 (1 / 53) \<le> rnd64 (8 / 100)"
    by (rule rnd64_mono, simp)+
  have w: "wallStartIndex (map auctionAt [102, 104, 106, 108]) 0 = None"
    using g
    by (simp add: wallStartIndex.simps GAP_THRESHOLD_def auctionAt_def double_eval)
  have e2: "findMarketPriceAuction ?xs = Some (auctionAt 102)"
    using e1 w by (simp add: findMarketPriceAuction_def findMarketPriceAuction_exit_def
        marketCandidates_def q1Index_def q3Index_def)
  from estimate_in_trimmed [OF h1 h2] h1 h2 e1 e2 show ?thesis
    unfolding Let_def by blast
qed




text \<open>
  C2. The group of an identity is the list of all fixed-price, unclaimed listings of the
  feed whose name normalizes to it. The auction detector returns a flip for an identity
  exactly when this group has at least 2 members, its cheapest listing (the buy price) is
  not below the minimum price, the estimator returns an estimate for the group sorted by
  price, the estimate is priced strictly above the buy price, and the profit, the
  estimate's price less its tax less the buy price, exceeds the minimum-profit threshold;
  the flip then carries the buy price, the estimate's price and the profit rounded to a
  whole number. The buy price is at most the price of every listing of the group. A buy
  price of 1,000,000 with an estimate of 1,300,000 gives a profit of 274,000.
\<close>

theorem auction_flip_conditions:
  "(flip \<in> set (fetchAuctionFlips allAuctions) \<longleftrightarrow>
      (let auctions = filter (\<lambda>a. bin a \<and> \<not> claimed a
                             \<and> normalizeAuctionName (item_name a) = af_itemName flip) allAuctions;
           sortedAuctions = sort_key starting_bid auctions;
           buyAuction = sortedAuctions ! 0;
           buyPrice = starting_bid buyAuction
       in 2 \<le> length auctions \<and> MIN_PRICE \<le> buyPrice
          \<and> (\<exists>estimate. findMarketPriceAuction sortedAuctions = Some estimate
                \<and> buyPrice < starting_bid estimate
                \<and> (let profit = fsub (fsub (starting_bid estimate)
                                     (calculateAhTax (starting_bid estimate))) buyPrice
                   in PROFIT_THRESHOLD < profit
                      \<and> flip = \<lparr>af_id = uuid buyAuction, af_itemName = af_itemName flip,
                                 af_rarity = tier buyAuction, af_lore = item_lore buyAuction,
                                 lowestBin = buyPrice, af_marketPrice = starting_bid estimate,
                                 af_profit = math_round profit\<rparr>))))
   \<and> (flip \<in> set (fetchAuctionFlips allAuctions) \<longrightarrow>
        (\<forall>a\<in>set allAuctions. bin a \<and> \<not> claimed a
             \<and> normalizeAuctionName (item_name a) = af_itemName flip
           \<longrightarrow> lowestBin flip \<le> starting_bid a))"
proof -
  let ?bins = "filter (\<lambda>auc. bin auc \<and> \<not> claimed auc) allAuctions"
  let ?k = "af_itemName flip"
  let ?g = "filter (\<lambda>a. bin a \<and> \<not> claimed a \<and> normalizeAuctionName (item_name a) = ?k) allAuctions"
  have gk: "filter (\<lambda>a. normalizeAuctionName (item_name a) = k) ?bins
      = filter (\<lambda>a. bin a \<and> \<not> claimed a \<and> normalizeAuctionName (item_name a) = k) allAuctions"
    for k by (simp add: conj_commute conj_left_commute)
  have mem: "flip \<in> set (fetchAuctionFlips allAuctions) \<longleftrightarrow>
      (\<exists>k auctions. (k, auctions) \<in> set (groupAuctions ?bins)
          \<and> auctionFlipOfGroup k auctions = Some flip)"
    by (simp add: fetchAuctionFlips_def Let_def in_set_map_filter Bex_def split_paired_Ex)
  have name: "k = ?k" if "auctionFlipOfGroup k auctions = Some flip" for k auctions
    using that unfolding auctionFlipOfGroup_iff by auto
  have len: "?g \<noteq> []" if "auctionFlipOfGroup ?k ?g = Some flip"
    using that unfolding auctionFlipOfGroup_iff by auto
  have "flip \<in> set (fetchAuctionFlips allAuctions) \<longleftrightarrow> auctionFlipOfGroup ?k ?g = Some flip"
  proof
    assume "flip \<in> set (fetchAuctionFlips allAuctions)"
    then obtain k auctions where g: "(k, auctions) \<in> set (groupAuctions ?bins)"
      and f: "auctionFlipOfGroup k auctions = Some flip"
      unfolding mem by blast
    from name [OF f] have k: "k = ?k" .
    from g have "auctions = ?g" unfolding groupAuctions_iff gk k by simp
    with f k show "auctionFlipOfGroup ?k ?g = Some flip" by simp
  next
    assume f: "auctionFlipOfGroup ?k ?g = Some flip"
    from len [OF f] have "(?k, ?g) \<in> set (groupAuctions ?bins)"
      unfolding groupAuctions_iff gk by simp
    with f show "flip \<in> set (fetchAuctionFlips allAuctions)" unfolding mem by blast
  qed
  note main = this
  have first: "flip \<in> set (fetchAuctionFlips allAuctions) \<longleftrightarrow>
      (let auctions = ?g;
           sortedAuctions = sort_key starting_bid auctions;
           buyAuction = sortedAuctions ! 0;
           buyPrice = starting_bid buyAuction
       in 2 \<le> length auctions \<and> MIN_PRICE \<le> buyPrice
          \<and> (\<exists>estimate. findMarketPriceAuction sortedAuctions = Some estimate
                \<and> buyPrice < starting_bid estimate
                \<and> (let profit = fsub (fsub (starting_bid estimate)
                                     (calculateAhTax (starting_bid estimate))) buyPrice
                   in PROFIT_THRESHOLD < profit
                      \<and> flip = \<lparr>af_id = uuid buyAuction, af_itemName = af_itemName flip,
                                 af_rarity = tier buyAuction, af_lore = item_lore buyAuction,
                                 lowestBin = buyPrice, af_marketPrice = starting_bid estimate,
                                 af_profit = math_round profit\<rparr>)))"
    unfolding main auctionFlipOfGroup_iff Let_def ..
  have second: "lowestBin flip \<le> starting_bid a"
    if m: "flip \<in> set (fetchAuctionFlips allAuctions)" and a: "a \<in> set allAuctions"
      "bin a \<and> \<not> claimed a \<and> normalizeAuctionName (item_name a) = ?k" for a
  proof -
    from m have "auctionFlipOfGroup ?k ?g = Some flip" unfolding main .
    then have lb: "lowestBin flip = starting_bid (sort_key starting_bid ?g ! 0)"
      by (rule auctionFlipOfGroup_lowestBin)
    from a have "a \<in> set ?g" by simp
    from sort_key_head_least [OF this, of starting_bid] lb show ?thesis by simp
  qed
  from first second show ?thesis by blast
qed


theorem auction_flip_conditions_witness:
  "fetchAuctionFlips hyperionFeed = [hyperionFlip]
   \<and> fetchAuctionFlips clusteredFeed = []
   \<and> filter (\<lambda>a. bin a \<and> \<not> claimed a
                 \<and> normalizeAuctionName (item_name a) = af_itemName hyperionFlip) hyperionFeed
       = [listing [0x31] ([0xA7, 0x36, 0x272A, 0x20] @ Hyperion) 1300000,
          listing [0x33] Hyperion 1000000]
   \<and> fsub (D 1300000) (calculateAhTax (D 1300000)) = D 1274000
   \<and> fsub (fsub (D 1300000) (calculateAhTax (D 1300000))) (D 1000000) = D 274000
   \<and> (let auctions = filter (\<lambda>a. bin a \<and> \<not> claimed a
                 \<and> normalizeAuctionName (item_name a) = af_itemName hyperionFlip) hyperionFeed;
           sortedAuctions = sort_key starting_bid auctions;
           buyAuction = sortedAuctions ! 0;
           buyPrice = starting_bid buyAuction
       in 2 \<le> length auctions \<and> MIN_PRICE \<le> buyPrice
          \<and> (\<exists>estimate. findMarketPriceAuction sortedAuctions = Some estimate
                \<and> buyPrice < starting_bid estimate
                \<and> (let profit = fsub (fsub (starting_bid estimate)
                                     (calculateAhTax (starting_bid estimate))) buyPrice
                   in PROFIT_THRESHOLD < profit
                      \<and> hyperionFlip
                          = \<lparr>af_id = uuid buyAuction, af_itemName = af_itemName hyperionFlip,
                             af_rarity = tier buyAuction, af_lore = item_lore buyAuction,
                             lowestBin = buyPrice, af_marketPrice = starting_bid estimate,
                             af_profit = math_round profit\<rparr>)))
   \<and> \<not> (\<exists>a\<in>set hyperionFeed. bin a \<and> \<not> claimed a
             \<and> normalizeAuctionName (item_name a) = af_itemName hyperionFlip
             \<and> \<not> lowestBin hyperionFlip \<le> starting_bid a)"
proof -
  have m: "isMarkup [0xA7, 0x36, 0x272A, 0x20]"
    by (simp add: isColourCode_def isDecoration_def isWhiteSpace_def)
  have h: "normalizeAuctionName Hyperion = Hyperion"
    by (simp add: normalizeAuctionName_def trim_def stripDecorations_def Hyperion_def
        isColourCode_def isDecoration_def isWhiteSpace_def)
  from normalize_affixes [OF m, of "[]" Hyperion] h
  have d: "normalizeAuctionName ([0xA7, 0x36, 0x272A, 0x20] @ Hyperion) = Hyperion" by simp
  have t: "rnd64 (1300000 * rnd64 (2 / 100)) = 26000" by code_simp
  have u: "rnd64 (1000100 * rnd64 (2 / 100)) = 20002" by code_simp
  have tax: "calculateAhTax (D 1300000) = D 26000"
    using t by (simp add: calculateAhTax_def double_eval)
  have tax2: "calculateAhTax (D 1000100) = D 20002"
    using u by (simp add: calculateAhTax_def double_eval)
  have net: "fsub (D 1300000) (calculateAhTax (D 1300000)) = D 1274000"
    unfolding tax by (simp add: double_eval)
  have profit: "fsub (fsub (D 1300000) (calculateAhTax (D 1300000))) (D 1000000) = D 274000"
    unfolding net by (simp add: double_eval)
  have grp: "filter (\<lambda>a. bin a \<and> \<not> claimed a
                 \<and> normalizeAuctionName (item_name a) = af_itemName hyperionFlip) hyperionFeed
       = [listing [0x31] ([0xA7, 0x36, 0x272A, 0x20] @ Hyperion) 1300000,
          listing [0x33] Hyperion 1000000]"
    using d h by (simp add: hyperionFeed_def hyperionFlip_def listing_def)
  have run: "fetchAuctionFlips hyperionFeed = [hyperionFlip]"
    using d h profit
    by (simp add: fetchAuctionFlips_def groupAuctions_def hyperionFeed_def hyperionFlip_def
        listing_def auctionFlipOfGroup_def findMarketPriceAuction_def
        findMarketPriceAuction_exit_def elem_or_null_def MIN_PRICE_def
        PROFIT_THRESHOLD_def Let_def List.map_filter_simps double_eval)
  have g: "rnd64 (100 / 1000100) \<le> rnd64 (8 / 100)" "rnd64 (100 / 1000200) \<le> rnd64 (8 / 100)"
    "rnd64 (100 / 1000300) \<le> rnd64 (8 / 100)"
    by (rule rnd64_mono, simp)+
  have w: "wallStartIndex (map (listing [] Hyperion) [1000100, 1000200, 1000300, 1000400]) 0 = None"
    using g by (simp add: wallStartIndex.simps GAP_THRESHOLD_def listing_def double_eval)
  have srt: "sort_key starting_bid clusteredFeed
      = map (listing [] Hyperion) [1000000, 1000100, 1000200, 1000300, 1000400, 1300000]"
    by (simp add: clusteredFeed_def listing_def double_eval)
  have fc: "filteredCandidates
        (map (listing [] Hyperion) [1000000, 1000100, 1000200, 1000300, 1000400, 1300000])
      = map (listing [] Hyperion) [1000100, 1000200, 1000300, 1000400]"
    by (simp add: filteredCandidates_def marketCandidates_def upperBound_def q1Index_def
        q3Index_def listing_def double_eval)
  have est: "findMarketPriceAuction
        (map (listing [] Hyperion) [1000000, 1000100, 1000200, 1000300, 1000400, 1300000])
      = Some (listing [] Hyperion 1000100)"
    using fc w by (simp add: findMarketPriceAuction_def findMarketPriceAuction_exit_def
        marketCandidates_def q1Index_def q3Index_def)
  have allg: "filter (\<lambda>auc. bin auc \<and> \<not> claimed auc) clusteredFeed = clusteredFeed"
    by (simp add: clusteredFeed_def listing_def)
  have grp2: "groupAuctions clusteredFeed = [(Hyperion, clusteredFeed)]"
    using h by (simp add: groupAuctions_def clusteredFeed_def listing_def)
  have none: "auctionFlipOfGroup Hyperion clusteredFeed = None"
    unfolding auctionFlipOfGroup_def Let_def srt est
    using tax2 by (simp add: clusteredFeed_def listing_def MIN_PRICE_def PROFIT_THRESHOLD_def
        rnd64_minus double_eval)
  have run2: "fetchAuctionFlips clusteredFeed = []"
    by (simp add: fetchAuctionFlips_def allg grp2 none List.map_filter_simps)
  from run have mem: "hyperionFlip \<in> set (fetchAuctionFlips hyperionFeed)" by simp
  from auction_flip_conditions [of hyperionFlip hyperionFeed] mem run run2 grp net profit
  show ?thesis by blast
qed

text \<open>
  C7. The profit per unit of a quote is its instant-sell price (the field \<open>buyPrice\<close> of the
  quote) less its instant-buy price (the field \<open>sellPrice\<close>), as a number: the difference,
  rounded to the nearest double. The bazaar detector returns a flip for a product exactly
  when the product has a quote with both prices positive, this profit exceeds 100 and the
  weekly buy volume exceeds 100. The profit of every returned flip is the difference of
  its sell price and its buy price; the exact difference of the two prices exceeds 100 as
  well, and the profit differs from it by at most its \<open>9007199254740992\<close>-th part. The quotes
  28.3 and 128.3 give a flip, with the profit 100.00000000000001.
\<close>

theorem bazaar_flip_profit:
  assumes "fetchBazaarFlips js response = Inr flips"
  shows "(flip \<in> set flips \<longleftrightarrow>
           (\<exists>productId product status.
               (productId, product) \<in> set (products response)
               \<and> quick_status product = Some status
               \<and> D 0 < sellPrice status \<and> D 0 < buyPrice status
               \<and> D 100 < fsub (buyPrice status) (sellPrice status)
               \<and> D 100 < buyMovingWeek status
               \<and> flip = \<lparr>bf_id = productId,
                          bf_itemName = formatItemName js (product_id product),
                          bf_buyPrice = sellPrice status, bf_sellPrice = buyPrice status,
                          bf_profit = fsub (buyPrice status) (sellPrice status),
                          bf_buyVolume = buyMovingWeek status,
                          bf_sellVolume = sellMovingWeek status\<rparr>))
         \<and> (flip \<in> set flips \<longrightarrow>
               bf_profit flip = fsub (bf_sellPrice flip) (bf_buyPrice flip)
               \<and> D 100 < bf_profit flip \<and> D 100 < bf_buyVolume flip
               \<and> 100 < val (bf_sellPrice flip) - val (bf_buyPrice flip)
               \<and> \<bar>val (bf_profit flip) - (val (bf_sellPrice flip) - val (bf_buyPrice flip))\<bar>
                   \<le> (val (bf_sellPrice flip) - val (bf_buyPrice flip)) / 9007199254740992)"
proof -
  from assms have fl: "flips = List.map_filter (bazaarFlipOfProduct js) (products response)"
    by (simp add: fetchBazaarFlips_def split: if_splits)
  have first: "flip \<in> set flips \<longleftrightarrow>
           (\<exists>productId product status.
               (productId, product) \<in> set (products response)
               \<and> quick_status product = Some status
               \<and> D 0 < sellPrice status \<and> D 0 < buyPrice status
               \<and> D 100 < fsub (buyPrice status) (sellPrice status)
               \<and> D 100 < buyMovingWeek status
               \<and> flip = \<lparr>bf_id = productId,
                          bf_itemName = formatItemName js (product_id product),
                          bf_buyPrice = sellPrice status, bf_sellPrice = buyPrice status,
                          bf_profit = fsub (buyPrice status) (sellPrice status),
                          bf_buyVolume = buyMovingWeek status,
                          bf_sellVolume = sellMovingWeek status\<rparr>)"
    unfolding fl in_set_map_filter Bex_def split_paired_Ex bazaarFlipOfProduct_iff by blast
  have second: "bf_profit flip = fsub (bf_sellPrice flip) (bf_buyPrice flip)
               \<and> D 100 < bf_profit flip \<and> D 100 < bf_buyVolume flip
               \<and> 100 < val (bf_sellPrice flip) - val (bf_buyPrice flip)
               \<and> \<bar>val (bf_profit flip) - (val (bf_sellPrice flip) - val (bf_buyPrice flip))\<bar>
                   \<le> (val (bf_sellPrice flip) - val (bf_buyPrice flip)) / 9007199254740992"
    if "flip \<in> set flips"
  proof -
    from that obtain productId product status where
      all: "(productId, product) \<in> set (products response)
               \<and> quick_status product = Some status
               \<and> D 0 < sellPrice status \<and> D 0 < buyPrice status
               \<and> D 100 < fsub (buyPrice status) (sellPrice status)
               \<and> D 100 < buyMovingWeek status
               \<and> flip = \<lparr>bf_id = productId,
                          bf_itemName = formatItemName js (product_id product),
                          bf_buyPrice = sellPrice status, bf_sellPrice = buyPrice status,
                          bf_profit = fsub (buyPrice status) (sellPrice status),
                          bf_buyVolume = buyMovingWeek status,
                          bf_sellVolume = sellMovingWeek status\<rparr>"
      unfolding first by (elim exE)
    then have p: "D 100 < fsub (buyPrice status) (sellPrice status)" "D 100 < buyMovingWeek status"
      and f: "flip = \<lparr>bf_id = productId,
                          bf_itemName = formatItemName js (product_id product),
                          bf_buyPrice = sellPrice status, bf_sellPrice = buyPrice status,
                          bf_profit = fsub (buyPrice status) (sellPrice status),
                          bf_buyVolume = buyMovingWeek status,
                          bf_sellVolume = sellMovingWeek status\<rparr>"
      by simp_all
    from fsub_exceeds_100 [OF p(1)] p show ?thesis by (simp add: f)
  qed
  from first second show ?thesis by blast
qed

theorem bazaar_flip_profit_witness:
  "fetchBazaarFlips asciiOps coalBazaar = Inr [coalFlip]
   \<and> val (bf_buyPrice coalFlip) = 7965741840911565 / 281474976710656
   \<and> val (bf_sellPrice coalFlip) = 2257077469498573 / 17592186044416
   \<and> val (bf_profit coalFlip) = 7036874417766401 / 70368744177664
   \<and> val (bf_sellPrice coalFlip) - val (bf_buyPrice coalFlip)
       = 28147497671065603 / 281474976710656
   \<and> bf_profit coalFlip = fsub (bf_sellPrice coalFlip) (bf_buyPrice coalFlip)
   \<and> D 100 < bf_profit coalFlip \<and> D 100 < bf_buyVolume coalFlip
   \<and> 100 < val (bf_sellPrice coalFlip) - val (bf_buyPrice coalFlip)
   \<and> \<bar>val (bf_profit coalFlip) - (val (bf_sellPrice coalFlip) - val (bf_buyPrice coalFlip))\<bar>
        \<le> (val (bf_sellPrice coalFlip) - val (bf_buyPrice coalFlip)) / 9007199254740992
   \<and> (\<exists>productId product status.
               (productId, product) \<in> set (products coalBazaar)
               \<and> quick_status product = Some status
               \<and> D 0 < sellPrice status \<and> D 0 < buyPrice status
               \<and> D 100 < fsub (buyPrice status) (sellPrice status)
               \<and> D 100 < buyMovingWeek status
               \<and> coalFlip = \<lparr>bf_id = productId,
                          bf_itemName = formatItemName asciiOps (product_id product),
                          bf_buyPrice = sellPrice status, bf_sellPrice = buyPrice status,
                          bf_profit = fsub (buyPrice status) (sellPrice status),
                          bf_buyVolume = buyMovingWeek status,
                          bf_sellVolume = sellMovingWeek status\<rparr>)"
proof -
  have a: "rnd64 (283 / 10) = 7965741840911565 / 281474976710656" by code_simp
  have b: "rnd64 (1283 / 10) = 2257077469498573 / 17592186044416" by code_simp
  have c: "rnd64 (rnd64 (1283 / 10) - rnd64 (283 / 10)) = 7036874417766401 / 70368744177664"
    by code_simp
  have d: "rnd64 (7036874417766401 / 70368744177664) = 7036874417766401 / 70368744177664"
    by code_simp
  have pa: "0 < rnd64 (283 / 10)" "0 < rnd64 (1283 / 10)" by (simp_all add: a b)
  have run: "fetchBazaarFlips asciiOps coalBazaar = Inr [coalFlip]"
    using pa
    by (simp add: fetchBazaarFlips_def coalBazaar_def coalFlip_def bazaarFlipOfProduct_def
      formatItemName_def asciiOps_def asciiLower_def asciiUpper_def double_eval c d)
  have mem: "coalFlip \<in> set [coalFlip]" by simp
  have v: "val (bf_buyPrice coalFlip) = 7965741840911565 / 281474976710656"
    "val (bf_sellPrice coalFlip) = 2257077469498573 / 17592186044416"
    "val (bf_profit coalFlip) = 7036874417766401 / 70368744177664"
    by (simp_all add: coalFlip_def a b d)
  have e: "val (bf_sellPrice coalFlip) - val (bf_buyPrice coalFlip)
       = 28147497671065603 / 281474976710656"
    unfolding v by simp
  from bazaar_flip_profit [OF run, of coalFlip] mem run v e show ?thesis by blast
qed

text \<open>
  C6. A crafting candidate with an empty recipe yields no flip. A candidate with an
  ingredient that the price map does not quote yields no flip, whatever the other
  ingredients cost. When every ingredient is quoted, the cost is the sum over the
  ingredients of unit price times quantity, added up from the first ingredient on, every
  product and every partial sum rounded to the nearest double; it is the exact sum when
  prices and quantities are whole numbers and the sum is below \<open>9007199254740992\<close>. The
  candidate yields a flip exactly when the cost is positive and the profit, the resale
  price less its tax less the cost, exceeds the threshold; the flip carries the cost and
  the profit rounded to whole numbers. The pipeline returns the flips of its candidates,
  in order, and nothing else. A quote of 65572.4 with quantity 15 and a resale price of
  1,105,700 give the cost 983585.9999999999 and the profit 100000.00000000012, hence a
  flip, with cost 983,586 and profit 100,000; a quote of 0.7 with quantity 45 gives the
  cost 31.499999999999996, reported as 31.
\<close>

theorem crafting_flip_costing:
  "(recipeIngredients = [] \<longrightarrow> craftingFlipOfItem bazaarPrices recipeIngredients item = None)
   \<and> ((\<exists>i\<in>set recipeIngredients. bazaarPrices (ingredientId i) = None) \<longrightarrow>
        craftingFlipOfItem bazaarPrices recipeIngredients item = None)
   \<and> ((\<forall>i\<in>set recipeIngredients. bazaarPrices (ingredientId i) \<noteq> None) \<longrightarrow>
        (let price = (\<lambda>i. pi_price (the (bazaarPrices (ingredientId i))));
             cost = foldl (\<lambda>craftCost i. fadd craftCost (fmul (price i) (quantity i)))
                      (D 0) recipeIngredients;
             profit = fsub (fsub (ifa_price item) (calculateAhTax (ifa_price item))) cost
         in craftingFlipOfItem bazaarPrices recipeIngredients item
              = (if D 0 < cost \<and> CRAFT_PROFIT_THRESHOLD < profit
                 then Some \<lparr>cf_id = ifa_id item, cf_itemName = ifa_name item,
                            cf_rarity = ifa_rarity item, cf_marketPrice = ifa_price item,
                            craftCost = math_round cost,
                            cf_profit = math_round profit,
                            recipe = map (\<lambda>i. \<lparr>ing_id = ingredientId i,
                                 ing_name = pi_name (the (bazaarPrices (ingredientId i))),
                                 ing_quantity = quantity i\<rparr>) recipeIngredients\<rparr>
                 else None)
            \<and> ((\<forall>i\<in>set recipeIngredients. val (price i) \<in> \<nat> \<and> val (quantity i) \<in> \<nat>)
                 \<and> (\<Sum>i\<leftarrow>recipeIngredients. val (price i) * val (quantity i))
                      < 9007199254740992
               \<longrightarrow> val cost = (\<Sum>i\<leftarrow>recipeIngredients. val (price i) * val (quantity i)))))
   \<and> (fetchBazaarPrices js response = Inr bazaarPrices \<longrightarrow>
        snd (fetchCraftingFlips js response replies items)
          = Inr (List.map_filter
                   (\<lambda>(k, candidate). craftingFlipOfItem bazaarPrices
                       (analyzeCraftingRecipe (replies k (ifa_name candidate))) candidate)
                   (zip [0 ..< length items] items)))"
proof (intro conjI impI)
  assume "fetchBazaarPrices js response = Inr bazaarPrices"
  then show "snd (fetchCraftingFlips js response replies items)
          = Inr (List.map_filter
                   (\<lambda>(k, candidate). craftingFlipOfItem bazaarPrices
                       (analyzeCraftingRecipe (replies k (ifa_name candidate))) candidate)
                   (zip [0 ..< length items] items))"
    by (rule fetchCraftingFlips_flips)
next
  assume "recipeIngredients = []"
  then show "craftingFlipOfItem bazaarPrices recipeIngredients item = None"
    by (simp add: craftingFlipOfItem_def)
next
  assume "\<exists>i\<in>set recipeIngredients. bazaarPrices (ingredientId i) = None"
  from priceIngredients_missing [OF this, of "(D 0, [])"]
  show "craftingFlipOfItem bazaarPrices recipeIngredients item = None"
    by (auto simp add: craftingFlipOfItem_def split: prod.splits)
next
  assume q: "\<forall>i\<in>set recipeIngredients. bazaarPrices (ingredientId i) \<noteq> None"
  let ?price = "\<lambda>i. pi_price (the (bazaarPrices (ingredientId i)))"
  let ?cost = "foldl (\<lambda>craftCost i. fadd craftCost (fmul (?price i) (quantity i)))
                      (D 0) recipeIngredients"
  let ?profit = "fsub (fsub (ifa_price item) (calculateAhTax (ifa_price item))) ?cost"
  from priceIngredients_quoted [OF q, of "D 0" "[]"]
  have flip: "craftingFlipOfItem bazaarPrices recipeIngredients item
              = (if D 0 < ?cost \<and> CRAFT_PROFIT_THRESHOLD < ?profit
                 then Some \<lparr>cf_id = ifa_id item, cf_itemName = ifa_name item,
                            cf_rarity = ifa_rarity item, cf_marketPrice = ifa_price item,
                            craftCost = math_round ?cost,
                            cf_profit = math_round ?profit,
                            recipe = map (\<lambda>i. \<lparr>ing_id = ingredientId i,
                                 ing_name = pi_name (the (bazaarPrices (ingredientId i))),
                                 ing_quantity = quantity i\<rparr>) recipeIngredients\<rparr>
                 else None)"
    by (cases "recipeIngredients = []")
      (simp_all add: craftingFlipOfItem_def Let_def less_double_def)
  have exact: "val ?cost = (\<Sum>i\<leftarrow>recipeIngredients. val (?price i) * val (quantity i))"
    if "(\<forall>i\<in>set recipeIngredients. val (?price i) \<in> \<nat> \<and> val (quantity i) \<in> \<nat>)
        \<and> (\<Sum>i\<leftarrow>recipeIngredients. val (?price i) * val (quantity i)) < 9007199254740992"
    using whole_cost_exact [of recipeIngredients ?price "D 0"] that by simp
  from flip exact
  show "let price = (\<lambda>i. pi_price (the (bazaarPrices (ingredientId i))));
             cost = foldl (\<lambda>craftCost i. fadd craftCost (fmul (price i) (quantity i)))
                      (D 0) recipeIngredients;
             profit = fsub (fsub (ifa_price item) (calculateAhTax (ifa_price item))) cost
         in craftingFlipOfItem bazaarPrices recipeIngredients item
              = (if D 0 < cost \<and> CRAFT_PROFIT_THRESHOLD < profit
                 then Some \<lparr>cf_id = ifa_id item, cf_itemName = ifa_name item,
                            cf_rarity = ifa_rarity item, cf_marketPrice = ifa_price item,
                            craftCost = math_round cost,
                            cf_profit = math_round profit,
                            recipe = map (\<lambda>i. \<lparr>ing_id = ingredientId i,
                                 ing_name = pi_name (the (bazaarPrices (ingredientId i))),
                                 ing_quantity = quantity i\<rparr>) recipeIngredients\<rparr>
                 else None)
            \<and> ((\<forall>i\<in>set recipeIngredients. val (price i) \<in> \<nat> \<and> val (quantity i) \<in> \<nat>)
                 \<and> (\<Sum>i\<leftarrow>recipeIngredients. val (price i) * val (quantity i))
                      < 9007199254740992
               \<longrightarrow> val cost = (\<Sum>i\<leftarrow>recipeIngredients. val (price i) * val (quantity i)))"
    unfolding Let_def by blast
qed


theorem crafting_flip_costing_witness:
  "craftingFlipOfItem craftPrices [] craftedItem = None
   \<and> (\<exists>i\<in>set mixedRecipe. craftPrices (ingredientId i) = None)
   \<and> craftingFlipOfItem craftPrices mixedRecipe craftedItem = None
   \<and> \<not> (\<exists>i\<in>set coalRecipe. craftPrices (ingredientId i) = None)
   \<and> craftingFlipOfItem craftPrices coalRecipe craftedItem = Some coalCraft
   \<and> val (fmul (D (327862 / 5)) (D 15)) = 8448939405606911 / 8589934592
   \<and> val (fsub (fsub (D 1105700) (calculateAhTax (D 1105700))) (fmul (D (327862 / 5)) (D 15)))
       = 858993459200001 / 8589934592
   \<and> \<not> (\<exists>i\<in>set inkRecipe. craftPrices (ingredientId i) = None)
   \<and> craftingFlipOfItem craftPrices inkRecipe dearItem = Some inkCraft
   \<and> val (fmul (D (7 / 10)) (D 45)) = 8866461766385663 / 281474976710656
   \<and> \<not> (\<exists>i\<in>set coalRecipe. wholePrices (ingredientId i) = None)
   \<and> \<not> (\<exists>i\<in>set coalRecipe. \<not> (val (pi_price (the (wholePrices (ingredientId i)))) \<in> \<nat>
                                  \<and> val (quantity i) \<in> \<nat>))
   \<and> (\<Sum>i\<leftarrow>coalRecipe. val (pi_price (the (wholePrices (ingredientId i)))) * val (quantity i))
       = 15000
   \<and> val (foldl (\<lambda>craftCost i. fadd craftCost
                   (fmul (pi_price (the (wholePrices (ingredientId i)))) (quantity i)))
             (D 0) coalRecipe) = 15000
   \<and> fetchBazaarPrices asciiOps craftBazaar = Inr craftPrices
   \<and> snd (fetchCraftingFlips asciiOps craftBazaar coalReply [craftedItem, craftedItem])
       = Inr [coalCraft, coalCraft]"
proof -
  note t = crafting_flip_costing
  have e: "craftingFlipOfItem craftPrices [] craftedItem = None"
    using t [of "[]" craftPrices craftedItem] by simp
  have h1: "\<exists>i\<in>set mixedRecipe. craftPrices (ingredientId i) = None"
    by (simp add: mixedRecipe_def craftPrices_def)
  have r1: "craftingFlipOfItem craftPrices mixedRecipe craftedItem = None"
    using t [of mixedRecipe craftPrices craftedItem] h1 by blast
  have q: "rnd64 (rnd64 (327862 / 5) * 15) = 8448939405606911 / 8589934592" by code_simp
  have q': "rnd64 (8448939405606911 / 8589934592) = 8448939405606911 / 8589934592" by code_simp
  have x: "rnd64 (1105700 * rnd64 (2 / 100)) = 22114" by code_simp
  have tax: "calculateAhTax (D 1105700) = D 22114"
    using x by (simp add: calculateAhTax_def double_eval)
  have p: "rnd64 (1083586 - 8448939405606911 / 8589934592) = 858993459200001 / 8589934592"
    by code_simp
  have p': "rnd64 (858993459200001 / 8589934592) = 858993459200001 / 8589934592" by code_simp
  have c1: "fmul (D (327862 / 5)) (D 15) = D (8448939405606911 / 8589934592)"
    by (simp add: double_eval q q')
  have v1: "val (fmul (D (327862 / 5)) (D 15)) = 8448939405606911 / 8589934592"
    by (simp add: c1 q')
  have c2: "fadd (D 0) (D (8448939405606911 / 8589934592)) = D (8448939405606911 / 8589934592)"
    by (simp add: double_eval q')
  have c3: "fsub (fsub (D 1105700) (D 22114)) (D (8448939405606911 / 8589934592))
      = D (858993459200001 / 8589934592)"
    by (simp add: double_eval q' p p')
  have v3: "val (fsub (fsub (D 1105700) (calculateAhTax (D 1105700))) (fmul (D (327862 / 5)) (D 15)))
       = 858993459200001 / 8589934592"
    by (simp add: tax c1 c3 p')
  have f1: "round (8448939405606911 / 8589934592 :: rat) = 983586" by code_simp
  have f2: "round (858993459200001 / 8589934592 :: rat) = 100000" by code_simp
  have m1: "math_round (D (8448939405606911 / 8589934592)) = D 983586"
    by (simp add: math_round_def q' double_eq_iff f1)
  have m2: "math_round (D (858993459200001 / 8589934592)) = D 100000"
    by (simp add: math_round_def p' double_eq_iff f2)
  have g1: "D 0 < D (8448939405606911 / 8589934592)" by (simp add: less_double_def q')
  have g2: "CRAFT_PROFIT_THRESHOLD < D (858993459200001 / 8589934592)"
    by (simp add: less_double_def CRAFT_PROFIT_THRESHOLD_def p')
  have h2: "\<forall>i\<in>set coalRecipe. craftPrices (ingredientId i) \<noteq> None"
    by (simp add: coalRecipe_def craftPrices_def)
  from t [of coalRecipe craftPrices craftedItem] h2
  have "craftingFlipOfItem craftPrices coalRecipe craftedItem
      = (let price = (\<lambda>i. pi_price (the (craftPrices (ingredientId i))));
             cost = foldl (\<lambda>craftCost i. fadd craftCost (fmul (price i) (quantity i)))
                      (D 0) coalRecipe;
             profit = fsub (fsub (ifa_price craftedItem) (calculateAhTax (ifa_price craftedItem))) cost
         in if D 0 < cost \<and> CRAFT_PROFIT_THRESHOLD < profit
                 then Some \<lparr>cf_id = ifa_id craftedItem, cf_itemName = ifa_name craftedItem,
                            cf_rarity = ifa_rarity craftedItem,
                            cf_marketPrice = ifa_price craftedItem,
                            craftCost = math_round cost,
                            cf_profit = math_round profit,
                            recipe = map (\<lambda>i. \<lparr>ing_id = ingredientId i,
                                 ing_name = pi_name (the (craftPrices (ingredientId i))),
                                 ing_quantity = quantity i\<rparr>) coalRecipe\<rparr>
                 else None)"
    unfolding Let_def by blast
  then have r2: "craftingFlipOfItem craftPrices coalRecipe craftedItem = Some coalCraft"
    by (simp add: coalRecipe_def craftPrices_def craftedItem_def coalCraft_def
        tax c1 c2 c3 m1 m2 g1 g2)
  have i: "rnd64 (rnd64 (7 / 10) * 45) = 8866461766385663 / 281474976710656" by code_simp
  have i': "rnd64 (8866461766385663 / 281474976710656) = 8866461766385663 / 281474976710656"
    by code_simp
  have y: "rnd64 (2000000 * rnd64 (2 / 100)) = 40000" by code_simp
  have tax2: "calculateAhTax (D 2000000) = D 40000"
    using y by (simp add: calculateAhTax_def double_eval)
  have j: "rnd64 (1960000 - 8866461766385663 / 281474976710656) = 3919937 / 2" by code_simp
  have j': "rnd64 (3919937 / 2) = 3919937 / 2" by code_simp
  have d1: "fmul (D (7 / 10)) (D 45) = D (8866461766385663 / 281474976710656)"
    by (simp add: double_eval i i')
  have w1: "val (fmul (D (7 / 10)) (D 45)) = 8866461766385663 / 281474976710656"
    by (simp add: d1 i')
  have d2: "fadd (D 0) (D (8866461766385663 / 281474976710656))
      = D (8866461766385663 / 281474976710656)"
    by (simp add: double_eval i')
  have d3: "fsub (fsub (D 2000000) (D 40000)) (D (8866461766385663 / 281474976710656))
      = D (3919937 / 2)"
    using j by (simp add: double_eval i' j')
  have f3: "round (8866461766385663 / 281474976710656 :: rat) = 31" by code_simp
  have f4: "round (3919937 / 2 :: rat) = 1959969" by code_simp
  have m3: "math_round (D (8866461766385663 / 281474976710656)) = D 31"
    by (simp add: math_round_def i' double_eq_iff f3)
  have m4: "math_round (D (3919937 / 2)) = D 1959969"
    by (simp add: math_round_def j' double_eq_iff f4)
  have g3: "D 0 < D (8866461766385663 / 281474976710656)" by (simp add: less_double_def i')
  have g4: "CRAFT_PROFIT_THRESHOLD < D (3919937 / 2)"
    by (simp add: less_double_def CRAFT_PROFIT_THRESHOLD_def j')
  have h3: "\<forall>i\<in>set inkRecipe. craftPrices (ingredientId i) \<noteq> None"
    by (simp add: inkRecipe_def craftPrices_def)
  from t [of inkRecipe craftPrices dearItem] h3
  have "craftingFlipOfItem craftPrices inkRecipe dearItem
      = (let price = (\<lambda>i. pi_price (the (craftPrices (ingredientId i))));
             cost = foldl (\<lambda>craftCost i. fadd craftCost (fmul (price i) (quantity i)))
                      (D 0) inkRecipe;
             profit = fsub (fsub (ifa_price dearItem) (calculateAhTax (ifa_price dearItem))) cost
         in if D 0 < cost \<and> CRAFT_PROFIT_THRESHOLD < profit
                 then Some \<lparr>cf_id = ifa_id dearItem, cf_itemName = ifa_name dearItem,
                            cf_rarity = ifa_rarity dearItem,
                            cf_marketPrice = ifa_price dearItem,
                            craftCost = math_round cost,
                            cf_profit = math_round profit,
                            recipe = map (\<lambda>i. \<lparr>ing_id = ingredientId i,
                                 ing_name = pi_name (the (craftPrices (ingredientId i))),
                                 ing_quantity = quantity i\<rparr>) inkRecipe\<rparr>
                 else None)"
    unfolding Let_def by blast
  then have r3: "craftingFlipOfItem craftPrices inkRecipe dearItem = Some inkCraft"
    by (simp add: inkRecipe_def craftPrices_def dearItem_def inkCraft_def
        tax2 d1 d2 d3 m3 m4 g3 g4)
  have h4: "\<forall>i\<in>set coalRecipe. wholePrices (ingredientId i) \<noteq> None"
    by (simp add: coalRecipe_def wholePrices_def)
  have h5: "\<forall>i\<in>set coalRecipe. val (pi_price (the (wholePrices (ingredientId i)))) \<in> \<nat>
                                  \<and> val (quantity i) \<in> \<nat>"
    by (simp add: coalRecipe_def wholePrices_def)
  have s: "(\<Sum>i\<leftarrow>coalRecipe. val (pi_price (the (wholePrices (ingredientId i)))) * val (quantity i))
       = 15000"
    by (simp add: coalRecipe_def wholePrices_def)
  have h6: "(\<Sum>i\<leftarrow>coalRecipe. val (pi_price (the (wholePrices (ingredientId i)))) * val (quantity i))
       < 9007199254740992"
    unfolding s by simp
  from t [of coalRecipe wholePrices dearItem] h4 h5 h6
  have "val (foldl (\<lambda>craftCost i. fadd craftCost
                   (fmul (pi_price (the (wholePrices (ingredientId i)))) (quantity i)))
             (D 0) coalRecipe)
      = (\<Sum>i\<leftarrow>coalRecipe. val (pi_price (the (wholePrices (ingredientId i)))) * val (quantity i))"
    unfolding Let_def by blast
  then have r4: "val (foldl (\<lambda>craftCost i. fadd craftCost
                   (fmul (pi_price (the (wholePrices (ingredientId i)))) (quantity i)))
             (D 0) coalRecipe) = 15000"
    unfolding s .
  have pos: "0 < rnd64 (327862 / 5)" "0 < rnd64 (7 / 10)" by code_simp+
  have h7: "fetchBazaarPrices asciiOps craftBazaar = Inr craftPrices"
    using pos
    by (simp add: fetchBazaarPrices_def craftBazaar_def craftPrices_def formatItemName_def
        asciiOps_def asciiLower_def asciiUpper_def less_double_def)
  have "snd (fetchCraftingFlips asciiOps craftBazaar coalReply [craftedItem, craftedItem])
      = Inr (List.map_filter
               (\<lambda>(k, candidate). craftingFlipOfItem craftPrices
                   (analyzeCraftingRecipe (coalReply k (ifa_name candidate))) candidate)
               (zip [0 ..< length [craftedItem, craftedItem]] [craftedItem, craftedItem]))"
    using t [of _ craftPrices _ asciiOps craftBazaar coalReply "[craftedItem, craftedItem]"] h7
    by blast
  then have r5: "snd (fetchCraftingFlips asciiOps craftBazaar coalReply [craftedItem, craftedItem])
      = Inr [coalCraft, coalCraft]"
    by (simp add: coalReply_def analyzeCraftingRecipe_def r2 upt_rec)
  have n2: "\<not> (\<exists>i\<in>set coalRecipe. craftPrices (ingredientId i) = None)" using h2 by blast
  have n3: "\<not> (\<exists>i\<in>set inkRecipe. craftPrices (ingredientId i) = None)" using h3 by blast
  have n4: "\<not> (\<exists>i\<in>set coalRecipe. wholePrices (ingredientId i) = None)" using h4 by blast
  have n5: "\<not> (\<exists>i\<in>set coalRecipe. \<not> (val (pi_price (the (wholePrices (ingredientId i)))) \<in> \<nat>
                                  \<and> val (quantity i) \<in> \<nat>))" using h5 by blast
  from e h1 r1 n2 r2 v1 v3 n3 r3 w1 n4 n5 s r4 h7 r5 show ?thesis by blast
qed

text \<open>
  C8. The raw names \<open>\<section>6\<close> U+272A \<open>Hyperion\<close> and \<open>Hyperion\<close> normalize to the same identity.
  In general, names that differ only in markup normalize to the same key: markup (colour
  codes, decorative glyphs, white space) put before and after a name does not change its
  key, and neither does a colour code inserted anywhere in a name, as long as it is not put
  between the section sign and the code character of another colour code.
\<close>

theorem normalizeAuctionName_markup:
  "normalizeAuctionName ([0xA7, 0x36, 0x272A, 0x20] @ Hyperion) = normalizeAuctionName Hyperion
   \<and> (\<forall>p q s. isMarkup p \<and> isMarkup q \<longrightarrow>
          normalizeAuctionName (p @ s @ q) = normalizeAuctionName s)
   \<and> (\<forall>(a::jsstring) (b::jsstring) c. isColourCode c
          \<and> \<not> (a \<noteq> [] \<and> last a = 0xA7 \<and> b \<noteq> [] \<and> isColourCode (hd b)) \<longrightarrow>
          normalizeAuctionName (a @ [0xA7, c] @ b) = normalizeAuctionName (a @ b))"
proof (intro conjI allI impI)
  have m: "isMarkup [0xA7, 0x36, 0x272A, 0x20]"
    by (simp add: isColourCode_def isDecoration_def isWhiteSpace_def)
  from normalize_affixes [OF m, of "[]" Hyperion]
  show "normalizeAuctionName ([0xA7, 0x36, 0x272A, 0x20] @ Hyperion) = normalizeAuctionName Hyperion"
    by simp
next
  fix p q s assume "isMarkup p \<and> isMarkup q"
  then show "normalizeAuctionName (p @ s @ q) = normalizeAuctionName s"
    by (simp add: normalize_affixes)
next
  fix a b :: jsstring and c :: "16 word"
  assume "isColourCode c \<and> \<not> (a \<noteq> [] \<and> last a = 0xA7 \<and> b \<noteq> [] \<and> isColourCode (hd b))"
  then have "removeColourCodes (a @ [0xA7, c] @ b) = removeColourCodes (a @ b)"
    by (intro removeColourCodes_insert_code) blast+
  then show "normalizeAuctionName (a @ [0xA7, c] @ b) = normalizeAuctionName (a @ b)"
    by (simp only: normalizeAuctionName_def)
qed

theorem normalizeAuctionName_markup_witness:
  "isMarkup [0xA7, 0x36, 0x272A, 0x20] \<and> isMarkup [0x20, 0x269A]
   \<and> normalizeAuctionName ([0xA7, 0x36, 0x272A, 0x20] @ Hyperion @ [0x20, 0x269A]) = Hyperion
   \<and> isColourCode 0x36
   \<and> \<not> ([0x48, 0x79 :: 16 word] \<noteq> [] \<and> last [0x48, 0x79] = (0xA7 :: 16 word)
          \<and> [0x70 :: 16 word] \<noteq> [] \<and> isColourCode (hd [0x70]))
   \<and> normalizeAuctionName ([0x48, 0x79] @ [0xA7, 0x36] @ [0x70]) = [0x48, 0x79, 0x70]"
proof -
  have m1: "isMarkup [0xA7, 0x36, 0x272A, 0x20]" and m2: "isMarkup [0x20, 0x269A]"
    by (simp_all add: isColourCode_def isDecoration_def isWhiteSpace_def)
  have c: "isColourCode 0x36" by (simp add: isColourCode_def)
  have n: "\<not> ([0x48, 0x79 :: 16 word] \<noteq> [] \<and> last [0x48, 0x79] = (0xA7 :: 16 word)
          \<and> [0x70 :: 16 word] \<noteq> [] \<and> isColourCode (hd [0x70]))" by simp
  have h: "normalizeAuctionName Hyperion = Hyperion"
    by (simp add: normalizeAuctionName_def trim_def stripDecorations_def Hyperion_def
        isColourCode_def isDecoration_def isWhiteSpace_def)
  have g: "normalizeAuctionName ([0x48, 0x79] @ [0x70]) = [0x48, 0x79, 0x70]"
    by (simp add: normalizeAuctionName_def trim_def stripDecorations_def
        isColourCode_def isDecoration_def isWhiteSpace_def)
  have A: "isMarkup p \<and> isMarkup q \<longrightarrow>
      normalizeAuctionName (p @ s @ q) = normalizeAuctionName s" for p q s
    using normalizeAuctionName_markup by blast
  have B: "isColourCode c
          \<and> \<not> (a \<noteq> [] \<and> last a = 0xA7 \<and> b \<noteq> [] \<and> isColourCode (hd b)) \<longrightarrow>
          normalizeAuctionName (a @ [0xA7, c] @ b) = normalizeAuctionName (a @ b)"
    for a b :: jsstring and c
    using normalizeAuctionName_markup by blast
  from A [of "[0xA7, 0x36, 0x272A, 0x20]" "[0x20, 0x269A]" Hyperion] m1 m2 h
  have r1: "normalizeAuctionName ([0xA7, 0x36, 0x272A, 0x20] @ Hyperion @ [0x20, 0x269A]) = Hyperion"
    by simp
  from B [of "0x36" "[0x48, 0x79]" "[0x70]"] c n g
  have r2: "normalizeAuctionName ([0x48, 0x79] @ [0xA7, 0x36] @ [0x70]) = [0x48, 0x79, 0x70]"
    by simp
  from m1 m2 c n r1 r2 show ?thesis by blast
qed

text \<open>
  C9, amended. When the request for the bazaar prices fails, the pipeline throws and
  reports no progress. When it succeeds, the pipeline reports progress once per candidate,
  whether or not the recipe request of the candidate succeeded: with \<open>N\<close> candidates the
  \<open>k\<close>-th value is \<open>Math.round((k / N) * 100)\<close>, the quotient and the product rounded to the
  nearest double before the rounding to a whole number; the values do not decrease, and
  the last one, after all \<open>N\<close> candidates, is 100. For fewer than 200 candidates every
  earlier value is below 100. With 40 candidates the 23rd value is 57, since the product
  is 57.49999999999999.
\<close>

theorem progress_reports:
  "let N = length items;
       log = fst (fetchCraftingFlips js response replies items)
   in (\<not> (ok response \<and> success response) \<longrightarrow>
         log = [] \<and> (\<exists>e. snd (fetchCraftingFlips js response replies items) = Inl e))
      \<and> (ok response \<and> success response \<longrightarrow>
            length log = N
            \<and> (\<forall>k. 1 \<le> k \<and> k \<le> N \<longrightarrow>
                   log ! (k - 1) = math_round (fmul (fdiv (D (of_nat k)) (D (of_nat N))) (D 100)))
            \<and> (N < 9007199254740992 \<longrightarrow>
                 (\<forall>k. 1 \<le> k \<and> k \<le> N \<longrightarrow>
                    val (log ! (k - 1))
                      = of_int (round (rnd64 (rnd64 (of_nat k / of_nat N) * 100)))))
            \<and> sorted log
            \<and> (1 \<le> N \<longrightarrow> log ! (N - 1) = D 100)
            \<and> (N < 200 \<longrightarrow> (\<forall>k. 1 \<le> k \<and> k < N \<longrightarrow> log ! (k - 1) < D 100)))"
proof -
  let ?N = "length items"
  let ?log = "fst (fetchCraftingFlips js response replies items)"
  have failed: "?log = [] \<and> (\<exists>e. snd (fetchCraftingFlips js response replies items) = Inl e)"
    if "\<not> (ok response \<and> success response)"
    using fetchCraftingFlips_failed [OF that] by blast
  have good: "length ?log = ?N
            \<and> (\<forall>k. 1 \<le> k \<and> k \<le> ?N \<longrightarrow>
                   ?log ! (k - 1) = math_round (fmul (fdiv (D (of_nat k)) (D (of_nat ?N))) (D 100)))
            \<and> (?N < 9007199254740992 \<longrightarrow>
                 (\<forall>k. 1 \<le> k \<and> k \<le> ?N \<longrightarrow>
                    val (?log ! (k - 1))
                      = of_int (round (rnd64 (rnd64 (of_nat k / of_nat ?N) * 100)))))
            \<and> sorted ?log
            \<and> (1 \<le> ?N \<longrightarrow> ?log ! (?N - 1) = D 100)
            \<and> (?N < 200 \<longrightarrow> (\<forall>k. 1 \<le> k \<and> k < ?N \<longrightarrow> ?log ! (k - 1) < D 100))"
    if h: "ok response \<and> success response"
  proof -
    from h have log: "?log = map (progressValue ?N) [1 ..< 1 + ?N]"
      by (intro fetchCraftingFlips_progress) simp_all
    have len: "length ?log = ?N" by (simp add: log del: upt_Suc)
    have nth: "?log ! (k - 1) = progressValue ?N k" if "1 \<le> k" "k \<le> ?N" for k
      using that by (simp add: log del: upt_Suc)
    have srt: "sorted ?log"
      unfolding sorted_iff_nth_mono
    proof (intro allI impI)
      fix i j assume "i \<le> j" "j < length ?log"
      then show "?log ! i \<le> ?log ! j"
        by (simp add: log progress_mono del: upt_Suc)
    qed
    have fin: "?log ! (?N - 1) = D 100" if "1 \<le> ?N"
      using nth [of ?N] that progress_last [OF that] by simp
    have ex: "val (?log ! (k - 1)) = of_int (round (rnd64 (rnd64 (of_nat k / of_nat ?N) * 100)))"
      if "?N < 9007199254740992" "1 \<le> k" "k \<le> ?N" for k
      using nth [OF that(2,3)] progress_exact(1) [OF that(3,1)] by simp
    have small: "?log ! (k - 1) < D 100" if "?N < 200" "1 \<le> k" "k < ?N" for k
      using nth [of k] that progress_small [OF that(1,3)] by simp
    from len nth srt fin ex small show ?thesis
      unfolding progressValue_def by blast
  qed
  from failed good show ?thesis unfolding Let_def by blast
qed

theorem progress_reports_witness:
  "ok craftBazaar \<and> success craftBazaar
   \<and> \<not> (ok (craftBazaar \<lparr>ok := False\<rparr>) \<and> success (craftBazaar \<lparr>ok := False\<rparr>))
   \<and> fst (fetchCraftingFlips asciiOps (craftBazaar \<lparr>ok := False\<rparr>) mixedReply
            (replicate 40 craftedItem)) = []
   \<and> length (replicate 40 craftedItem) = 40
   \<and> length (fst (fetchCraftingFlips asciiOps craftBazaar mixedReply (replicate 40 craftedItem)))
       = 40
   \<and> fst (fetchCraftingFlips asciiOps craftBazaar mixedReply (replicate 40 craftedItem)) ! 22
       = math_round (fmul (fdiv (D 23) (D 40)) (D 100))
   \<and> val (fmul (fdiv (D 23) (D 40)) (D 100)) = 8092405580431359 / 140737488355328
   \<and> fst (fetchCraftingFlips asciiOps craftBazaar mixedReply (replicate 40 craftedItem)) ! 22
       = D 57
   \<and> (40 :: nat) < 9007199254740992
   \<and> val (fst (fetchCraftingFlips asciiOps craftBazaar mixedReply (replicate 40 craftedItem)) ! 22)
       = of_int (round (rnd64 (rnd64 (23 / 40) * 100)))
   \<and> sorted (fst (fetchCraftingFlips asciiOps craftBazaar mixedReply (replicate 40 craftedItem)))
   \<and> fst (fetchCraftingFlips asciiOps craftBazaar mixedReply (replicate 40 craftedItem)) ! 39
       = D 100
   \<and> \<not> (\<exists>k. 1 \<le> k \<and> k < 40
           \<and> \<not> fst (fetchCraftingFlips asciiOps craftBazaar mixedReply
                       (replicate 40 craftedItem)) ! (k - 1) < D 100)"
proof -
  let ?items = "replicate 40 craftedItem"
  let ?log = "fst (fetchCraftingFlips asciiOps craftBazaar mixedReply ?items)"
  have h: "ok craftBazaar \<and> success craftBazaar" by (simp add: craftBazaar_def)
  have nh: "\<not> (ok (craftBazaar \<lparr>ok := False\<rparr>) \<and> success (craftBazaar \<lparr>ok := False\<rparr>))" by simp
  have n: "length ?items = 40" by simp
  from progress_reports [where items = ?items and js = asciiOps and replies = mixedReply
      and response = "craftBazaar \<lparr>ok := False\<rparr>"] nh
  have r0: "fst (fetchCraftingFlips asciiOps (craftBazaar \<lparr>ok := False\<rparr>) mixedReply ?items) = []"
    unfolding Let_def by blast
  from progress_reports [where items = ?items and js = asciiOps and replies = mixedReply
      and response = craftBazaar] h
  have g: "length ?log = length ?items
     \<and> (\<forall>k. 1 \<le> k \<and> k \<le> length ?items \<longrightarrow>
            ?log ! (k - 1) = math_round (fmul (fdiv (D (of_nat k)) (D (of_nat (length ?items)))) (D 100)))
     \<and> (length ?items < 9007199254740992 \<longrightarrow>
           (\<forall>k. 1 \<le> k \<and> k \<le> length ?items \<longrightarrow>
              val (?log ! (k - 1))
                = of_int (round (rnd64 (rnd64 (of_nat k / of_nat (length ?items)) * 100)))))
     \<and> sorted ?log
     \<and> (1 \<le> length ?items \<longrightarrow> ?log ! (length ?items - 1) = D 100)
     \<and> (length ?items < 200 \<longrightarrow> (\<forall>k. 1 \<le> k \<and> k < length ?items \<longrightarrow> ?log ! (k - 1) < D 100))"
    unfolding Let_def by blast
  from g have r1: "length ?log = 40" unfolding n by blast
  from g have "\<forall>k. 1 \<le> k \<and> k \<le> 40 \<longrightarrow>
            ?log ! (k - 1) = math_round (fmul (fdiv (D (of_nat k)) (D (of_nat 40))) (D 100))"
    unfolding n by blast
  from this [rule_format, of 23]
  have r2: "?log ! 22 = math_round (fmul (fdiv (D 23) (D 40)) (D 100))" by simp
  have a: "rnd64 (rnd64 (23 / 40) * 100) = 8092405580431359 / 140737488355328" by code_simp
  have r3: "val (fmul (fdiv (D 23) (D 40)) (D 100)) = 8092405580431359 / 140737488355328"
    using a by (simp add: double_eval)
  have b: "round (8092405580431359 / 140737488355328 :: rat) = 57" by code_simp
  have r4: "?log ! 22 = D 57"
    unfolding r2 by (simp add: math_round_def r3 b double_eq_iff)
  from g have r5: "sorted ?log" by blast
  have c: "(1 :: nat) \<le> 40" "(40 :: nat) < 200" "40 - 1 = (39 :: nat)"
    "(40 :: nat) < 9007199254740992" by simp_all
  from g [unfolded n] c(4) have "\<forall>k. 1 \<le> k \<and> k \<le> 40 \<longrightarrow>
      val (?log ! (k - 1)) = of_int (round (rnd64 (rnd64 (of_nat k / of_nat 40) * 100)))"
    by blast
  from this [rule_format, of 23]
  have r8: "val (?log ! 22) = of_int (round (rnd64 (rnd64 (23 / 40) * 100)))" by simp
  from g [unfolded n] c(1) have "?log ! (40 - 1) = D 100" by blast
  then have r6: "?log ! 39 = D 100" unfolding c(3) .
  from g [unfolded n] c(2) have "\<forall>k. 1 \<le> k \<and> k < 40 \<longrightarrow> ?log ! (k - 1) < D 100" by blast
  then have r7: "\<not> (\<exists>k. 1 \<le> k \<and> k < 40 \<and> \<not> ?log ! (k - 1) < D 100)" by blast
  from h nh r0 n r1 r2 r3 r4 r5 r6 r7 r8 c(4) show ?thesis by blast
qed

text \<open>
  C9 as stated, with 100 reported precisely when all candidates have resolved, fails for
  long lists: with 200 candidates the 199th value is \<open>Math.round(99.5)\<close>, which is 100,
  although one candidate is still to be resolved.
\<close>

theorem progress_100_before_last:
  "ok craftBazaar \<and> success craftBazaar
   \<and> length (replicate 200 craftedItem) = 200
   \<and> length (fst (fetchCraftingFlips asciiOps craftBazaar mixedReply (replicate 200 craftedItem)))
       = 200
   \<and> fst (fetchCraftingFlips asciiOps craftBazaar mixedReply (replicate 200 craftedItem)) ! 198
       = D 100
   \<and> fst (fetchCraftingFlips asciiOps craftBazaar mixedReply (replicate 200 craftedItem)) ! 198
       = math_round (fmul (fdiv (D 199) (D 200)) (D 100))
   \<and> val (fmul (fdiv (D 199) (D 200)) (D 100)) = 199 / 2"
proof -
  have h1: "ok craftBazaar" and h2: "success craftBazaar" by (simp_all add: craftBazaar_def)
  have log: "fst (fetchCraftingFlips asciiOps craftBazaar mixedReply (replicate 200 craftedItem))
      = map (progressValue 200) [1 ..< 1 + 200]"
    using fetchCraftingFlips_progress [OF h1 h2, of asciiOps mixedReply "replicate 200 craftedItem"]
    by simp
  have nth: "map (progressValue 200) [1 ..< 1 + 200] ! 198 = progressValue 200 (1 + 198)"
    by (subst nth_map) (simp_all del: upt_Suc)
  have v: "map (progressValue 200) [1 ..< 1 + 200] ! 198 = D 100"
    unfolding nth using progress_200_199 by simp
  have w: "map (progressValue 200) [1 ..< 1 + 200] ! 198
      = math_round (fmul (fdiv (D 199) (D 200)) (D 100))"
    unfolding nth by (simp add: progressValue_def)
  have a: "rnd64 (rnd64 (199 / 200) * 100) = 199 / 2" by code_simp
  have x: "val (fmul (fdiv (D 199) (D 200)) (D 100)) = 199 / 2"
    using a by (simp add: double_eval)
  have len: "length (map (progressValue 200) [1 ..< 1 + 200]) = 200" by (simp del: upt_Suc)
  from h1 h2 v w x len show ?thesis unfolding log by simp
qed

end
